theory Spec2Isabelle
  imports Complex_Main
begin

section \<open>JavaScript numbers\<close>

subsection \<open>Rounding to the nearest double\<close>

text \<open>
  A JavaScript number is an IEEE 754 binary64 value, and \<^verbatim>\<open>+\<close>, \<^verbatim>\<open>-\<close>, \<^verbatim>\<open>*\<close>, \<^verbatim>\<open>/\<close> and the
  reading of a decimal literal give the double nearest to the exact result, a tie going to
  the double with the even significand. \<open>rnd x\<close> is that double, for a real \<open>x\<close>, when the
  exponent range is unbounded above: \<open>expo x\<close> is the binary exponent of \<open>x\<close>, at least that
  of the smallest normal number, \<open>ulp x\<close> is the distance between the doubles around \<open>x\<close>
  (53 significant bits, and 2 to the power -1074 in the subnormal range), and \<open>round_even\<close>
  rounds a real to the nearest integer, a tie going to the even one. A result that rounds
  to a magnitude of 2 to the power 1024 or more overflows to an infinity (\<open>to_number\<close>
  below).
\<close>

definition round_even :: "real \<Rightarrow> int" where
  "round_even y =
     (let f = \<lfloor>y\<rfloor>; d = y - of_int f
      in if d < 1 / 2 then f else if d > 1 / 2 then f + 1 else if even f then f else f + 1)"

definition expo :: "real \<Rightarrow> int" where
  "expo x = max \<lfloor>log 2 \<bar>x\<bar>\<rfloor> (- 1022)"

definition ulp :: "real \<Rightarrow> real" where
  "ulp x = 2 powi (expo x - 52)"

definition rnd :: "real \<Rightarrow> real" where
  "rnd x = (if x = 0 then 0 else of_int (round_even (x / ulp x)) * ulp x)"

subsection \<open>Numbers with NaN and the infinities\<close>

text \<open>
  The analyzer's numbers can be \<^verbatim>\<open>NaN\<close> and \<^verbatim>\<open>Infinity\<close> of either sign (from \<^verbatim>\<open>parseFloat\<close>,
  from an invalid \<^verbatim>\<open>Date\<close>, from a division by zero, from an overflow), and the code nowhere
  excludes them, so the model has them. A finite number \<open>Fin a\<close> carries its value as a
  \<^typ>\<open>real\<close>; the arithmetic rounds every finite result to the nearest double and overflows
  to an infinity. There is no negative zero; the divisors of this program (\<^verbatim>\<open>daysDiff\<close>
  and \<^verbatim>\<open>totalConsumption\<close>) are never \<^verbatim>\<open>-0\<close>, since \<^verbatim>\<open>x - x\<close> and a sum started from \<^verbatim>\<open>0\<close> are
  \<^verbatim>\<open>+0\<close> when they are zero.
\<close>

datatype number = Fin real | NaN | PosInf | NegInf

definition to_number :: "real \<Rightarrow> number" where
  \<comment> \<open>the double of an exact result; the doubles end below 2 to the power 1024\<close>
  "to_number x =
     (let r = rnd x
      in if 2 ^ 1024 \<le> r then PosInf else if r \<le> - (2 ^ 1024) then NegInf else Fin r)"

definition finite_n :: "number \<Rightarrow> bool" where
  "finite_n x = (case x of Fin a \<Rightarrow> True | _ \<Rightarrow> False)"

fun plus_n :: "number \<Rightarrow> number \<Rightarrow> number" where
  "plus_n (Fin a) (Fin b) = to_number (a + b)"
| "plus_n NaN y = NaN"
| "plus_n x NaN = NaN"
| "plus_n PosInf NegInf = NaN"
| "plus_n NegInf PosInf = NaN"
| "plus_n PosInf y = PosInf"
| "plus_n x PosInf = PosInf"
| "plus_n NegInf y = NegInf"
| "plus_n x NegInf = NegInf"

fun uminus_n :: "number \<Rightarrow> number" where
  "uminus_n (Fin a) = Fin (- a)"
| "uminus_n NaN = NaN"
| "uminus_n PosInf = NegInf"
| "uminus_n NegInf = PosInf"

definition minus_n :: "number \<Rightarrow> number \<Rightarrow> number" where
  "minus_n x y = plus_n x (uminus_n y)"

fun times_n :: "number \<Rightarrow> number \<Rightarrow> number" where
  "times_n (Fin a) (Fin b) = to_number (a * b)"
| "times_n NaN y = NaN"
| "times_n x NaN = NaN"
| "times_n (Fin a) y = (if a = 0 then NaN else if (0 < a) = (y = PosInf) then PosInf else NegInf)"
| "times_n x (Fin b) = (if b = 0 then NaN else if (0 < b) = (x = PosInf) then PosInf else NegInf)"
| "times_n x y = (if x = y then PosInf else NegInf)"

fun divide_n :: "number \<Rightarrow> number \<Rightarrow> number" where
  "divide_n (Fin a) (Fin b) =
     (if b \<noteq> 0 then to_number (a / b)
      else if a = 0 then NaN else if 0 < a then PosInf else NegInf)"
| "divide_n NaN y = NaN"
| "divide_n x NaN = NaN"
| "divide_n (Fin a) y = Fin 0"
| "divide_n x (Fin b) = (if (0 \<le> b) = (x = PosInf) then PosInf else NegInf)"
| "divide_n x y = NaN"

fun less_n :: "number \<Rightarrow> number \<Rightarrow> bool" where
  "less_n (Fin a) (Fin b) = (a < b)"
| "less_n NaN y = False"
| "less_n x NaN = False"
| "less_n x NegInf = False"
| "less_n NegInf y = True"
| "less_n PosInf y = False"
| "less_n x PosInf = True"

definition greater_n :: "number \<Rightarrow> number \<Rightarrow> bool" where
  "greater_n x y = less_n y x"

definition ge_n :: "number \<Rightarrow> number \<Rightarrow> bool" where
  \<comment> \<open>\<^verbatim>\<open>x >= y\<close>: false when either is \<^verbatim>\<open>NaN\<close>\<close>
  "ge_n x y = (x \<noteq> NaN \<and> y \<noteq> NaN \<and> \<not> less_n x y)"

definition strict_eq :: "number \<Rightarrow> number \<Rightarrow> bool" where
  \<comment> \<open>\<^verbatim>\<open>x === y\<close>: \<^verbatim>\<open>NaN\<close> equals nothing\<close>
  "strict_eq x y = (x \<noteq> NaN \<and> x = y)"

definition max2 :: "number \<Rightarrow> number \<Rightarrow> number" where
  "max2 x y = (if x = NaN \<or> y = NaN then NaN else if less_n x y then y else x)"

definition Math_max :: "number list \<Rightarrow> number" where
  \<comment> \<open>\<^verbatim>\<open>Math.max(...xs)\<close>: \<^verbatim>\<open>-Infinity\<close> of no argument, \<^verbatim>\<open>NaN\<close> when an argument is \<^verbatim>\<open>NaN\<close>\<close>
  "Math_max xs = foldl max2 NegInf xs"

section \<open>Trade settlement: the execute-trade function and its tables\<close>

text \<open>
  The execute-trade handler reads and writes two tables of the migration
  \<^verbatim>\<open>20251128065312\<close>: \<^verbatim>\<open>user_assets\<close> and \<^verbatim>\<open>transactions\<close>, both with foreign keys
  into \<^verbatim>\<open>assets\<close> and \<^verbatim>\<open>profiles\<close>. Only the columns the handler reads or writes are
  kept (the generated \<^verbatim>\<open>id\<close>, \<^verbatim>\<open>created_at\<close> and \<^verbatim>\<open>updated_at\<close> columns are left out), and of
  \<^verbatim>\<open>assets\<close> and \<^verbatim>\<open>profiles\<close> only the primary keys.

  Numbers: the columns are DECIMAL, of unbounded precision, so a stored number is a
  \<^typ>\<open>real\<close>. The handler computes with doubles: a number it reads from the store is the
  double nearest to the stored decimal (\<open>rnd\<close>), every sum and difference is rounded, and a
  number it writes is stored as it is (the decimal text of a double reads back as that
  double). The numbers of a request are those that \<^verbatim>\<open>req.json()\<close> has parsed, finite
  doubles. A product that overflows is \<^verbatim>\<open>Infinity\<close>, which is sent to the store as \<^verbatim>\<open>null\<close>;
  so the \<^verbatim>\<open>total_price\<close> of a row to insert is a \<^typ>\<open>number\<close>, and the \<^verbatim>\<open>NOT NULL\<close> column
  refuses one that is not finite. Identifiers are UUID values, taken from \<^typ>\<open>nat\<close>.
\<close>

type_synonym uuid = nat

record user_asset_row =
  ua_user_id :: uuid
  ua_asset_id :: uuid
  ownership_percent :: real

record transaction_row =
  tx_asset_id :: uuid
  buyer_id :: "uuid option"
  seller_id :: "uuid option"
  percent_traded :: real
  price_per_percent :: real
  total_price :: number
  transaction_type :: string

record database =
  assets :: "uuid list"
  profiles :: "uuid list"
  user_assets :: "user_asset_row list"
  transactions :: "transaction_row list"

text \<open>
  A call of the store client answers with data or with an error object. Besides the
  constraint violations that the schema defines, a call can fail for reasons outside the
  schema (the store is unreachable, say): the handler is run with a \<open>store_faults\<close> value
  that says, for each of its three calls, whether such a failure happens.
\<close>

datatype 'a store_result = StoreError | StoreOk 'a

record store_faults =
  fetch_fails :: bool
  write_fails :: bool
  tx_fails :: bool

definition no_faults :: store_faults where
  "no_faults = \<lparr>fetch_fails = False, write_fails = False, tx_fails = False\<rparr>"

definition row_of :: "uuid \<Rightarrow> uuid \<Rightarrow> user_asset_row \<Rightarrow> bool" where
  \<comment> \<open>\<^verbatim>\<open>.eq('user_id', userId).eq('asset_id', assetId)\<close>\<close>
  "row_of uid aid r = (ua_user_id r = uid \<and> ua_asset_id r = aid)"

definition percent_check :: "real \<Rightarrow> bool" where
  \<comment> \<open>\<^verbatim>\<open>CHECK (ownership_percent > 0 AND ownership_percent <= 100)\<close>, and the same on \<^verbatim>\<open>percent_traded\<close>\<close>
  "percent_check v = (v > 0 \<and> v \<le> 100)"

definition select_ownership ::
  "bool \<Rightarrow> database \<Rightarrow> uuid \<Rightarrow> uuid \<Rightarrow> user_asset_row option store_result" where
  \<comment> \<open>\<^verbatim>\<open>.select('ownership_percent')...maybeSingle()\<close>: no row is null, several rows are an error\<close>
  "select_ownership fails db uid aid =
     (if fails then StoreError
      else (case filter (row_of uid aid) (user_assets db) of
              [] \<Rightarrow> StoreOk None
            | [r] \<Rightarrow> StoreOk (Some r)
            | _ \<Rightarrow> StoreError))"

definition delete_ownership :: "bool \<Rightarrow> database \<Rightarrow> uuid \<Rightarrow> uuid \<Rightarrow> database store_result" where
  "delete_ownership fails db uid aid =
     (if fails then StoreError
      else StoreOk (db\<lparr>user_assets := filter (\<lambda>r. \<not> row_of uid aid r) (user_assets db)\<rparr>))"

definition update_ownership ::
  "bool \<Rightarrow> database \<Rightarrow> uuid \<Rightarrow> uuid \<Rightarrow> real \<Rightarrow> database store_result" where
  \<comment> \<open>the CHECK constraint is evaluated on the rows the update touches\<close>
  "update_ownership fails db uid aid v =
     (if fails then StoreError
      else if list_ex (row_of uid aid) (user_assets db) \<and> \<not> percent_check v then StoreError
      else StoreOk (db\<lparr>user_assets :=
             map (\<lambda>r. if row_of uid aid r then r\<lparr>ownership_percent := v\<rparr> else r)
                 (user_assets db)\<rparr>))"

definition insert_ownership ::
  "bool \<Rightarrow> database \<Rightarrow> uuid \<Rightarrow> uuid \<Rightarrow> real \<Rightarrow> database store_result" where
  \<comment> \<open>CHECK on the percentage, \<^verbatim>\<open>UNIQUE(user_id, asset_id)\<close>, and the two foreign keys\<close>
  "insert_ownership fails db uid aid v =
     (if fails then StoreError
      else if \<not> percent_check v then StoreError
      else if list_ex (row_of uid aid) (user_assets db) then StoreError
      else if uid \<notin> set (profiles db) \<or> aid \<notin> set (assets db) then StoreError
      else StoreOk (db\<lparr>user_assets := user_assets db @
             [\<lparr>ua_user_id = uid, ua_asset_id = aid, ownership_percent = v\<rparr>]\<rparr>))"

definition party_ok :: "database \<Rightarrow> uuid option \<Rightarrow> bool" where
  \<comment> \<open>a nullable foreign key into \<^verbatim>\<open>profiles\<close>\<close>
  "party_ok db p = (case p of None \<Rightarrow> True | Some u \<Rightarrow> u \<in> set (profiles db))"

definition insert_transaction :: "bool \<Rightarrow> database \<Rightarrow> transaction_row \<Rightarrow> database store_result" where
  \<comment> \<open>\<^verbatim>\<open>CHECK (percent_traded > 0 AND percent_traded <= 100)\<close>, \<^verbatim>\<open>total_price ... NOT NULL\<close>,
      \<^verbatim>\<open>CHECK (transaction_type IN ('buy', 'sell'))\<close>, and the three foreign keys\<close>
  "insert_transaction fails db t =
     (if fails then StoreError
      else if \<not> percent_check (percent_traded t) then StoreError
      else if \<not> finite_n (total_price t) then StoreError
      else if transaction_type t \<noteq> ''buy'' \<and> transaction_type t \<noteq> ''sell'' then StoreError
      else if tx_asset_id t \<notin> set (assets db) then StoreError
      else if \<not> party_ok db (buyer_id t) \<or> \<not> party_ok db (seller_id t) then StoreError
      else StoreOk (db\<lparr>transactions := transactions db @ [t]\<rparr>))"

subsection \<open>The handler\<close>

text \<open>
  The request body after \<^verbatim>\<open>req.json()\<close>, with the field types of the request shape: a field
  that is absent is \<open>None\<close>. \<^verbatim>\<open>!x\<close> holds of an absent field, of the number 0 and of the
  empty string.
\<close>

record trade_request =
  assetId :: "uuid option"
  userId :: "uuid option"
  percentage :: "real option"
  mode :: "string option"
  pricePerPercent :: "real option"

datatype payload = Success (newOwnership: real) | Error (message: string)

type_synonym response = "nat \<times> payload"

definition missing_fields :: "trade_request \<Rightarrow> bool" where
  \<comment> \<open>\<^verbatim>\<open>!assetId || !userId || !percentage || !mode || !pricePerPercent\<close>\<close>
  "missing_fields req =
     (assetId req = None \<or> userId req = None
      \<or> percentage req = None \<or> percentage req = Some 0
      \<or> mode req = None \<or> mode req = Some []
      \<or> pricePerPercent req = None \<or> pricePerPercent req = Some 0)"

definition caught :: "database \<Rightarrow> string \<Rightarrow> database \<times> response" where
  \<comment> \<open>the catch block: status 400 with the message of the thrown Error; the store stays as
      it was when the Error was thrown\<close>
  "caught db msg = (db, (400, Error msg))"

definition trade_transaction :: "uuid \<Rightarrow> uuid \<Rightarrow> real \<Rightarrow> string \<Rightarrow> real \<Rightarrow> transaction_row" where
  \<comment> \<open>the row of the \<^verbatim>\<open>transactions\<close> insert\<close>
  "trade_transaction aid uid pct m price =
     \<lparr>tx_asset_id = aid,
      buyer_id = (if m = ''buy'' then Some uid else None),
      seller_id = (if m = ''sell'' then Some uid else None),
      percent_traded = pct,
      price_per_percent = price,
      total_price = times_n (Fin pct) (Fin price),
      transaction_type = m\<rparr>"

definition record_transaction ::
  "store_faults \<Rightarrow> database \<Rightarrow> uuid \<Rightarrow> uuid \<Rightarrow> real \<Rightarrow> string \<Rightarrow> real \<Rightarrow> real
     \<Rightarrow> database \<times> response" where
  \<comment> \<open>"Record transaction" and the success response\<close>
  "record_transaction flt db aid uid pct m price newPercent =
     (case insert_transaction (tx_fails flt) db (trade_transaction aid uid pct m price) of
        StoreError \<Rightarrow> caught db ''Failed to record transaction''
      | StoreOk db' \<Rightarrow> (db', (200, Success newPercent)))"

definition persist_ownership ::
  "store_faults \<Rightarrow> database \<Rightarrow> uuid \<Rightarrow> uuid \<Rightarrow> user_asset_row option \<Rightarrow> real
     \<Rightarrow> string + database" where
  \<comment> \<open>"Update or insert user_assets": \<open>Inl\<close> is the message of the Error thrown\<close>
  "persist_ownership flt db aid uid currentOwnership newPercent =
     (if newPercent = 0 then
        (case delete_ownership (write_fails flt) db uid aid of
           StoreError \<Rightarrow> Inl ''Failed to update ownership''
         | StoreOk db' \<Rightarrow> Inr db')
      else if currentOwnership \<noteq> None then
        (case update_ownership (write_fails flt) db uid aid newPercent of
           StoreError \<Rightarrow> Inl ''Failed to update ownership''
         | StoreOk db' \<Rightarrow> Inr db')
      else
        (case insert_ownership (write_fails flt) db uid aid newPercent of
           StoreError \<Rightarrow> Inl ''Failed to create ownership''
         | StoreOk db' \<Rightarrow> Inr db'))"

definition settle ::
  "store_faults \<Rightarrow> database \<Rightarrow> uuid \<Rightarrow> uuid \<Rightarrow> real \<Rightarrow> string \<Rightarrow> real
     \<Rightarrow> user_asset_row option \<Rightarrow> real \<Rightarrow> database \<times> response" where
  \<comment> \<open>the handler from "Update or insert user_assets" on, once \<^verbatim>\<open>newPercent\<close> is known\<close>
  "settle flt db aid uid pct m price currentOwnership newPercent =
     (case persist_ownership flt db aid uid currentOwnership newPercent of
        Inl msg \<Rightarrow> caught db msg
      | Inr db' \<Rightarrow> record_transaction flt db' aid uid pct m price newPercent)"

text \<open>
  \<^verbatim>\<open>Number(currentOwnership.ownership_percent)\<close> is the double nearest to the stored decimal,
  and \<^verbatim>\<open>currentPercent + percentage\<close> and \<^verbatim>\<open>currentPercent - percentage\<close> are rounded sums.
  A stored decimal beyond the range of the doubles, which the CHECK constraint excludes,
  would be read as an infinity; the handler then takes the same branches as the model does
  with the real number, since an infinite \<^verbatim>\<open>newPercent\<close> is sent as \<^verbatim>\<open>null\<close> and
  refused like a number that fails the CHECK.
\<close>

definition execute_trade :: "store_faults \<Rightarrow> database \<Rightarrow> trade_request \<Rightarrow> database \<times> response" where
  "execute_trade flt db req =
     (if missing_fields req then caught db ''Missing required fields''
      else
        let aid = the (assetId req); uid = the (userId req); pct = the (percentage req);
            m = the (mode req); price = the (pricePerPercent req)
        in if pct \<le> 0 \<or> pct > 100 then caught db ''Invalid percentage''
           else (case select_ownership (fetch_fails flt) db uid aid of
                   StoreError \<Rightarrow> caught db ''Failed to fetch current ownership''
                 | StoreOk currentOwnership \<Rightarrow>
                     let currentPercent =
                           (case currentOwnership of
                              Some r \<Rightarrow> rnd (ownership_percent r) | None \<Rightarrow> 0)
                     in if m = ''buy'' then
                          (let newPercent = rnd (currentPercent + pct)
                           in if newPercent > 100
                              then caught db ''Cannot own more than 100% of an asset''
                              else settle flt db aid uid pct m price currentOwnership newPercent)
                        else if currentPercent < pct
                          then caught db ''Insufficient ownership to sell''
                          else settle flt db aid uid pct m price currentOwnership
                                 (rnd (currentPercent - pct))))"

subsection \<open>Drivers and invariants for the claims\<close>

text \<open>
  The rows of \<^verbatim>\<open>user_assets\<close> satisfy the table's CHECK and UNIQUE constraints; \<open>holding\<close> is
  what the handler reads as \<^verbatim>\<open>currentPercent\<close> of such a table: the double nearest to the
  stored percentage, or 0 when there is no row.
\<close>

definition key_of :: "user_asset_row \<Rightarrow> uuid \<times> uuid" where
  "key_of r = (ua_user_id r, ua_asset_id r)"

definition ownership_inv :: "database \<Rightarrow> bool" where
  "ownership_inv db =
     (list_all (\<lambda>r. percent_check (ownership_percent r)) (user_assets db)
      \<and> distinct (map key_of (user_assets db)))"

definition holding :: "database \<Rightarrow> uuid \<Rightarrow> uuid \<Rightarrow> real" where
  "holding db uid aid =
     (case find (row_of uid aid) (user_assets db) of
        None \<Rightarrow> 0 | Some r \<Rightarrow> rnd (ownership_percent r))"

text \<open>Requests as the trade dialog sends them, and requests handled one after the other.\<close>

definition buy_request :: "uuid \<Rightarrow> uuid \<Rightarrow> real \<times> real \<Rightarrow> trade_request" where
  "buy_request uid aid b =
     \<lparr>assetId = Some aid, userId = Some uid, percentage = Some (fst b),
      mode = Some ''buy'', pricePerPercent = Some (snd b)\<rparr>"

definition sell_request :: "uuid \<Rightarrow> uuid \<Rightarrow> real \<times> real \<Rightarrow> trade_request" where
  "sell_request uid aid b =
     \<lparr>assetId = Some aid, userId = Some uid, percentage = Some (fst b),
      mode = Some ''sell'', pricePerPercent = Some (snd b)\<rparr>"

fun run_trades :: "store_faults \<Rightarrow> database \<Rightarrow> trade_request list \<Rightarrow> database \<times> response list" where
  "run_trades flt db [] = (db, [])"
| "run_trades flt db (r # rs) =
     (case execute_trade flt db r of
        (db', resp) \<Rightarrow> (case run_trades flt db' rs of (db'', resps) \<Rightarrow> (db'', resp # resps)))"

fun running_sums :: "real \<Rightarrow> real list \<Rightarrow> real list" where
  \<comment> \<open>the sums as the handler accumulates them, one rounded addition per buy\<close>
  "running_sums acc [] = []"
| "running_sums acc (p # ps) = rnd (acc + p) # running_sums (rnd (acc + p)) ps"

text \<open>
  The running sums of the specification, in exact arithmetic, for comparison with
  \<open>running_sums\<close>; and four buys of 21.36, 45.76, 31.45 and 1.43 percent at 150 per percent,
  the percentages being the doubles that \<^verbatim>\<open>req.json()\<close> reads.
\<close>

fun exact_sums :: "real \<Rightarrow> real list \<Rightarrow> real list" where
  "exact_sums acc [] = []"
| "exact_sums acc (p # ps) = (acc + p) # exact_sums (acc + p) ps"

definition rounding_buys :: "(real \<times> real) list" where
  "rounding_buys =
     [(rnd (2136 / 100), 150), (rnd (4576 / 100), 150), (rnd (3145 / 100), 150),
      (rnd (143 / 100), 150)]"

text \<open>Two small stores for the concrete runs: nobody owns anything, and user 7 owns half of asset 1.\<close>

definition market :: database where
  "market = \<lparr>assets = [1, 2], profiles = [7, 8], user_assets = [], transactions = []\<rparr>"

definition holder :: database where
  "holder = \<lparr>assets = [1, 2], profiles = [7, 8],
     user_assets = [\<lparr>ua_user_id = 7, ua_asset_id = 1, ownership_percent = 50\<rparr>],
     transactions = []\<rparr>"

text \<open>The messages of the Errors that the handler throws, and a request of another mode.\<close>

definition trade_errors :: "string list" where
  "trade_errors =
     [''Missing required fields'', ''Invalid percentage'', ''Failed to fetch current ownership'',
      ''Cannot own more than 100% of an asset'', ''Insufficient ownership to sell'',
      ''Failed to update ownership'', ''Failed to create ownership'',
      ''Failed to record transaction'']"

definition hold_request :: trade_request where
  "hold_request = \<lparr>assetId = Some 1, userId = Some 7, percentage = Some 20,
     mode = Some ''hold'', pricePerPercent = Some 150\<rparr>"

section \<open>Load curve analysis: the analyze-load-curve function\<close>

subsection \<open>Strings and parseFloat\<close>

text \<open>
  Strings are lists of 8-bit characters, so the model covers ASCII input. \<open>is_space\<close> is the
  white space and the line terminators that \<^verbatim>\<open>trim\<close> and \<^verbatim>\<open>parseFloat\<close> strip.
\<close>

definition is_space :: "char \<Rightarrow> bool" where
  "is_space c = (c \<in> {CHR 0x09, CHR 0x0A, CHR 0x0B, CHR 0x0C, CHR 0x0D, CHR '' ''})"

definition trim :: "string \<Rightarrow> string" where
  "trim s = rev (dropWhile is_space (rev (dropWhile is_space s)))"

fun split_js :: "char \<Rightarrow> string \<Rightarrow> string list" where
  \<comment> \<open>\<^verbatim>\<open>s.split(sep)\<close> for a separator of one character; the empty string gives one empty field\<close>
  "split_js sep [] = [[]]"
| "split_js sep (c # cs) =
     (if c = sep then [] # split_js sep cs
      else (case split_js sep cs of [] \<Rightarrow> [[c]] | w # ws \<Rightarrow> (c # w) # ws))"

definition is_digit :: "char \<Rightarrow> bool" where
  "is_digit c = (c \<in> set ''0123456789'')"

definition digit_val :: "char \<Rightarrow> nat" where
  "digit_val c = of_char c - 48"

definition digits_val :: "string \<Rightarrow> nat" where
  "digits_val ds = foldl (\<lambda>a c. 10 * a + digit_val c) 0 ds"

definition exponent_part :: "string \<Rightarrow> int option" where
  \<comment> \<open>\<^verbatim>\<open>ExponentPart\<close>: \<^verbatim>\<open>e\<close> or \<^verbatim>\<open>E\<close>, an optional sign, at least one digit\<close>
  "exponent_part s =
     (case s of
        [] \<Rightarrow> None
      | c # r \<Rightarrow>
          if c \<noteq> CHR ''e'' \<and> c \<noteq> CHR ''E'' then None
          else (case r of
                  [] \<Rightarrow> None
                | d # r' \<Rightarrow>
                    if d = CHR ''-'' then
                      (if takeWhile is_digit r' = [] then None
                       else Some (- int (digits_val (takeWhile is_digit r'))))
                    else if d = CHR ''+'' then
                      (if takeWhile is_digit r' = [] then None
                       else Some (int (digits_val (takeWhile is_digit r'))))
                    else
                      (if takeWhile is_digit r = [] then None
                       else Some (int (digits_val (takeWhile is_digit r))))))"

definition scale10 :: "real \<Rightarrow> int \<Rightarrow> real" where
  "scale10 x e = (if 0 \<le> e then x * 10 ^ nat e else x / 10 ^ nat (- e))"

definition unsigned_literal :: "string \<Rightarrow> real option" where
  \<comment> \<open>the value of the longest prefix that is a \<^verbatim>\<open>StrUnsignedDecimalLiteral\<close> other than
      \<^verbatim>\<open>Infinity\<close>: digits, an optional fraction, an optional exponent\<close>
  "unsigned_literal u =
     (let ip = takeWhile is_digit u; r1 = dropWhile is_digit u;
          dot = (r1 \<noteq> [] \<and> hd r1 = CHR ''.'');
          fp = (if dot then takeWhile is_digit (tl r1) else []);
          r2 = (if dot then dropWhile is_digit (tl r1) else r1)
      in if ip = [] \<and> fp = [] then None
         else
           let mantissa = real (digits_val ip) + real (digits_val fp) / 10 ^ length fp
           in (case exponent_part r2 of
                 None \<Rightarrow> Some mantissa
               | Some e \<Rightarrow> Some (scale10 mantissa e)))"

definition parseFloat :: "string \<Rightarrow> number" where
  \<comment> \<open>the number is the double nearest to the value of the literal\<close>
  "parseFloat s =
     (let t = dropWhile is_space s;
          negative = (t \<noteq> [] \<and> hd t = CHR ''-'');
          u = (if t \<noteq> [] \<and> (hd t = CHR ''-'' \<or> hd t = CHR ''+'') then tl t else t)
      in if take 8 u = ''Infinity'' then (if negative then NegInf else PosInf)
         else (case unsigned_literal u of
                 None \<Rightarrow> NaN
               | Some x \<Rightarrow> to_number (if negative then - x else x)))"

subsection \<open>parseCSV and analyzeLoadCurve\<close>

text \<open>
  A \<^verbatim>\<open>Date\<close> is what the analyzer reads of it: \<^verbatim>\<open>getTime()\<close>, the milliseconds since the epoch,
  and \<^verbatim>\<open>getHours()\<close>, the hour in the local time zone; both are \<^verbatim>\<open>NaN\<close> of an invalid date.
  The \<^verbatim>\<open>Date\<close> constructor, whose parsing depends on the runtime and its time zone, is a
  parameter \<open>newDate\<close> of the parser.
\<close>

record Date =
  getTime :: number
  getHours :: number

record LoadCurveData =
  timestamp :: Date
  val :: number

fun parse_lines :: "(string \<Rightarrow> Date) \<Rightarrow> string list \<Rightarrow> LoadCurveData list" where
  \<comment> \<open>the loop of \<^verbatim>\<open>parseCSV\<close> over the lines after the header; \<^verbatim>\<open>timestamp && value\<close> fails
      for a field that is absent or empty\<close>
  "parse_lines newDate [] = []"
| "parse_lines newDate (l # ls) =
     (case split_js CHR '','' l of
        t # v # _ \<Rightarrow>
          if t \<noteq> [] \<and> v \<noteq> []
          then \<lparr>timestamp = newDate t, val = parseFloat v\<rparr> # parse_lines newDate ls
          else parse_lines newDate ls
      | _ \<Rightarrow> parse_lines newDate ls)"

definition parseCSV :: "(string \<Rightarrow> Date) \<Rightarrow> string \<Rightarrow> LoadCurveData list" where
  "parseCSV newDate content = parse_lines newDate (tl (split_js (CHR 0x0A) (trim content)))"

record timeSlots =
  night :: number
  morning :: number
  afternoon :: number
  evening :: number

definition add_slot :: "timeSlots \<Rightarrow> LoadCurveData \<Rightarrow> timeSlots" where
  \<comment> \<open>the callback of \<^verbatim>\<open>data.forEach\<close>\<close>
  "add_slot ts d =
     (let hour = getHours (timestamp d)
      in if ge_n hour (Fin 0) \<and> less_n hour (Fin 6) then ts\<lparr>night := plus_n (night ts) (val d)\<rparr>
         else if ge_n hour (Fin 6) \<and> less_n hour (Fin 12)
           then ts\<lparr>morning := plus_n (morning ts) (val d)\<rparr>
         else if ge_n hour (Fin 12) \<and> less_n hour (Fin 18)
           then ts\<lparr>afternoon := plus_n (afternoon ts) (val d)\<rparr>
         else ts\<lparr>evening := plus_n (evening ts) (val d)\<rparr>)"

definition sum_values :: "LoadCurveData list \<Rightarrow> number" where
  \<comment> \<open>\<^verbatim>\<open>data.reduce((sum, d) => sum + d.value, 0)\<close>\<close>
  "sum_values data = foldl (\<lambda>sum d. plus_n sum (val d)) (Fin 0) data"

definition fill_slots :: "LoadCurveData list \<Rightarrow> timeSlots" where
  "fill_slots data =
     foldl add_slot \<lparr>night = Fin 0, morning = Fin 0, afternoon = Fin 0, evening = Fin 0\<rparr> data"

definition percentages :: "timeSlots \<Rightarrow> number \<Rightarrow> timeSlots" where
  "percentages ts tc =
     \<lparr>night = times_n (divide_n (night ts) tc) (Fin 100),
      morning = times_n (divide_n (morning ts) tc) (Fin 100),
      afternoon = times_n (divide_n (afternoon ts) tc) (Fin 100),
      evening = times_n (divide_n (evening ts) tc) (Fin 100)\<rparr>"

definition classify :: "timeSlots \<Rightarrow> string" where
  \<comment> \<open>"Determine consumption pattern", on the four percentages\<close>
  "classify p =
     (let mx = Math_max [night p, morning p, afternoon p, evening p]
      in if strict_eq (afternoon p) mx \<and> greater_n (afternoon p) (Fin 35) then ''daytime-driven''
         else if strict_eq (evening p) mx \<and> greater_n (evening p) (Fin 35) then ''evening-driven''
         else if strict_eq (night p) mx \<and> greater_n (night p) (Fin 30) then ''night-driven''
         else ''mixed'')"

text \<open>
  The result holds the numbers that the source renders with \<^verbatim>\<open>toFixed\<close>; the rendering (which
  gives a string for every number, \<^verbatim>\<open>NaN\<close> and \<^verbatim>\<open>Infinity\<close> included) is not modelled.
\<close>

record analysis =
  totalConsumption :: number
  avgDailyConsumption :: number
  peakLoad :: number
  timeOfDay :: timeSlots
  pattern :: string
  dataPoints :: nat

definition analyzeLoadCurve :: "LoadCurveData list \<Rightarrow> string + analysis" where
  "analyzeLoadCurve data =
     (if length data = 0 then Inl ''No data to analyze''
      else
        let totalConsumption = sum_values data;
            firstDate = timestamp (data ! 0);
            lastDate = timestamp (data ! (length data - 1));
            daysDiff = divide_n (minus_n (getTime lastDate) (getTime firstDate))
                         (Fin (1000 * 60 * 60 * 24));
            avgDailyConsumption = divide_n totalConsumption daysDiff;
            peakLoad = Math_max (map val data);
            timeSlotPercentages = percentages (fill_slots data) totalConsumption
        in Inr \<lparr>totalConsumption = totalConsumption,
                avgDailyConsumption = avgDailyConsumption,
                peakLoad = peakLoad,
                timeOfDay = timeSlotPercentages,
                pattern = classify timeSlotPercentages,
                dataPoints = length data\<rparr>)"

subsection \<open>Extracting the recommendation from the model's reply\<close>

definition match_braces :: "string \<Rightarrow> string option" where
  \<comment> \<open>\<^verbatim>\<open>aiResponse.match(/\{[\s\S]*\}/)\<close>: the leftmost match starts at the first opening
      brace, and the greedy star runs to the last closing brace after it\<close>
  "match_braces s =
     (let t = dropWhile (\<lambda>c. c \<noteq> CHR ''{'') s
      in if t = [] then None
         else
           let u = rev (dropWhile (\<lambda>c. c \<noteq> CHR ''}'') (rev (tl t)))
           in if u = [] then None else Some (CHR ''{'' # u))"

definition extract_result ::
  "(string \<Rightarrow> string + 'j) \<Rightarrow> string option \<Rightarrow> (nat \<times> string) + 'j" where
  \<comment> \<open>the handler from \<^verbatim>\<open>aiResponse\<close> on: \<open>Inl\<close> is the status and the error of the response.
      \<^verbatim>\<open>JSON.parse\<close> is a parameter: \<open>Inl\<close> is the message of the SyntaxError it throws, which
      the catch block returns with status 500\<close>
  "extract_result JSON_parse aiResponse =
     (case aiResponse of
        None \<Rightarrow> Inl (500, ''No analysis result received'')
      | Some s \<Rightarrow>
          if s = [] then Inl (500, ''No analysis result received'')
          else (case match_braces s of
                  None \<Rightarrow> Inl (500, ''Invalid analysis format'')
                | Some jsonMatch \<Rightarrow>
                    (case JSON_parse jsonMatch of
                       Inl msg \<Rightarrow> Inl (500, msg)
                     | Inr result \<Rightarrow> Inr result)))"

text \<open>
  The handler of the analysis request, in the variant that analyses the file itself and
  returns the analysis with the recommendation. The call of the model gateway is a parameter: its
  answer depends on the prompt, which is built from the analysis, so it is a function of
  the analysis. It throws (the network fails, the body is not JSON), or answers with a
  status that is not ok, or answers with the content of the first choice, which may be
  absent. \<open>api_key\<close> says whether the key of the gateway is configured.
\<close>

datatype gateway_response =
    GatewayThrows string
  | GatewayStatus nat
  | GatewayContent "string option"

definition serve_analysis ::
  "(string \<Rightarrow> Date) \<Rightarrow> (string \<Rightarrow> string + 'j) \<Rightarrow> bool \<Rightarrow> (analysis \<Rightarrow> gateway_response)
     \<Rightarrow> string option \<Rightarrow> nat \<times> (string + 'j \<times> analysis)" where
  "serve_analysis newDate JSON_parse api_key gateway fileContent =
     (case fileContent of
        None \<Rightarrow> (400, Inl ''No file content provided'')
      | Some content \<Rightarrow>
          if content = [] then (400, Inl ''No file content provided'')
          else (case analyzeLoadCurve (parseCSV newDate content) of
                  Inl msg \<Rightarrow> (500, Inl msg)
                | Inr analysis \<Rightarrow>
                    if \<not> api_key then (500, Inl ''API configuration error'')
                    else (case gateway analysis of
                            GatewayThrows msg \<Rightarrow> (500, Inl msg)
                          | GatewayStatus st \<Rightarrow>
                              if st = 429
                              then (429, Inl ''Rate limit exceeded. Please try again in a moment.'')
                              else if st = 402
                              then (402, Inl ''Payment required. Please add credits to your workspace.'')
                              else (500, Inl ''Failed to analyze data'')
                          | GatewayContent aiResponse \<Rightarrow>
                              (case extract_result JSON_parse aiResponse of
                                 Inl (st, msg) \<Rightarrow> (st, Inl msg)
                               | Inr result \<Rightarrow> (200, Inr (result, analysis))))))"

text \<open>
  The specification's wording, for comparison with \<open>match_braces\<close>: the first balanced-brace
  substring starts at an opening brace and ends at the brace that closes it.
\<close>

fun closing_spec :: "nat \<Rightarrow> string \<Rightarrow> string option" where
  \<comment> \<open>the text up to the brace that closes \<open>Suc d\<close> open braces\<close>
  "closing_spec d [] = None"
| "closing_spec d (c # cs) =
     (if c = CHR ''{'' then map_option ((#) c) (closing_spec (Suc d) cs)
      else if c = CHR ''}'' then
        (case d of 0 \<Rightarrow> Some [c] | Suc d' \<Rightarrow> map_option ((#) c) (closing_spec d' cs))
      else map_option ((#) c) (closing_spec d cs))"

fun first_balanced_spec :: "string \<Rightarrow> string option" where
  "first_balanced_spec [] = None"
| "first_balanced_spec (c # cs) =
     (if c = CHR ''{'' then
        (case closing_spec 0 cs of
           Some r \<Rightarrow> Some (c # r)
         | None \<Rightarrow> first_balanced_spec cs)
      else first_balanced_spec cs)"

subsection \<open>Series and replies for the concrete runs\<close>


definition sample :: "real \<Rightarrow> real \<Rightarrow> real \<Rightarrow> LoadCurveData" where
  "sample t h v = \<lparr>timestamp = \<lparr>getTime = Fin t, getHours = Fin h\<rparr>, val = Fin v\<rparr>"

definition tie_series :: "LoadCurveData list" where
  "tie_series = [sample 46800000 13 1, sample 68400000 19 1]"











text \<open>
  Two CSV texts of one data row, the first with a value that is not a number; a date
  constructor that knows the timestamp of that row (midnight UTC) and makes an invalid date
  of anything else; a gateway that always replies with the empty object; and a JSON parser
  that accepts the empty object only.
\<close>

definition nan_csv :: string where
  "nan_csv = ''timestamp,value'' @ [CHR 0x0A] @ ''2024-01-01T00:00:00,abc''"

definition utc_date :: "string \<Rightarrow> Date" where
  "utc_date s = (if s = ''2024-01-01T00:00:00''
       then \<lparr>getTime = Fin 1704067200000, getHours = Fin 0\<rparr>
       else \<lparr>getTime = NaN, getHours = NaN\<rparr>)"

definition one_row_csv :: string where
  "one_row_csv = ''timestamp,value'' @ [CHR 0x0A] @ ''2024-01-01T00:00:00,5''"

definition empty_object_gateway :: "analysis \<Rightarrow> gateway_response" where
  "empty_object_gateway a = GatewayContent (Some ''{}'')"

definition toy_parse :: "string \<Rightarrow> string + unit" where
  "toy_parse j = (if j = ''{}'' then Inr () else Inl ''Unexpected token'')"

section \<open>Properties of rounding\<close>

lemma round_even_of_int [simp]: "round_even (of_int k) = k"
  by (simp add: round_even_def)

lemma round_even_cases: "round_even y = \<lfloor>y\<rfloor> \<or> round_even y = \<lfloor>y\<rfloor> + 1"
  by (simp add: round_even_def Let_def)

lemma round_even_floor: "round_even y = \<lfloor>y\<rfloor> + 1 \<Longrightarrow> of_int \<lfloor>y\<rfloor> < y"
  by (auto simp: round_even_def Let_def split: if_splits)

lemma round_even_le: assumes "y \<le> of_int k" shows "round_even y \<le> k"
proof -
  from assms have f: "\<lfloor>y\<rfloor> \<le> k" by (simp add: floor_le_iff) 
  show ?thesis
  proof (cases "round_even y = \<lfloor>y\<rfloor>")
    case True
    with f show ?thesis by simp
  next
    case False
    with round_even_cases[of y] have r: "round_even y = \<lfloor>y\<rfloor> + 1" by simp
    from round_even_floor[OF r] assms have "of_int \<lfloor>y\<rfloor> < (of_int k :: real)" by simp
    then have "\<lfloor>y\<rfloor> < k" by simp
    with r show ?thesis by simp
  qed
qed

lemma round_even_ge: assumes "of_int k \<le> y" shows "k \<le> round_even y"
proof -
  from assms have "k \<le> \<lfloor>y\<rfloor>" by (simp add: le_floor_iff)
  with round_even_cases[of y] show ?thesis by auto
qed

lemma two_powr_int: "(2::real) powr real_of_int n = 2 powi n"
  by (simp add: powr_real_of_int')

lemma floor_log2_eq:
  assumes "2 powi e \<le> x" "x < 2 powi (e + 1)"
  shows "\<lfloor>log 2 x\<rfloor> = e"
proof -
  have "(0::real) < 2 powi e" by simp
  with assms(1) have x: "0 < x" by linarith
  have "real_of_int e \<le> log 2 x"
    using assms(1) x by (simp add: le_log_iff two_powr_int)
  moreover have "log 2 x < real_of_int (e + 1)"
  proof -
    from assms(2) have "x < 2 powr real_of_int (e + 1)" by (simp only: two_powr_int)
    with x show ?thesis by (subst log_less_iff) simp_all
  qed
  ultimately show ?thesis by linarith
qed

lemma floor_log2_bounds:
  assumes "0 < x"
  shows "2 powi \<lfloor>log 2 x\<rfloor> \<le> x \<and> x < 2 powi (\<lfloor>log 2 x\<rfloor> + 1)"
proof -
  have "real_of_int \<lfloor>log 2 x\<rfloor> \<le> log 2 x" by simp
  then have a: "2 powr real_of_int \<lfloor>log 2 x\<rfloor> \<le> x"
    using assms by (simp add: le_log_iff[symmetric])
  have "log 2 x < real_of_int (\<lfloor>log 2 x\<rfloor> + 1)" by linarith
  then have b: "x < 2 powr real_of_int (\<lfloor>log 2 x\<rfloor> + 1)"
    using assms by (subst log_less_iff[symmetric]) simp_all
  from a b show ?thesis by (simp only: two_powr_int)
qed

lemma pow2_pos [simp]: "(0::real) < 2 powi n"
  by (simp add: zero_less_power_int)

lemma pow2_less_iff: "((2::real) powi a < 2 powi b) = (a < b)"
proof
  assume l: "(2::real) powi a < 2 powi b"
  show "a < b"
  proof (rule ccontr)
    assume "\<not> a < b"
    then have "b \<le> a" by simp
    then have "(2::real) powi b \<le> 2 powi a" by (intro power_int_increasing) simp_all
    with l show False by simp
  qed
next
  assume "a < b"
  then show "(2::real) powi a < 2 powi b" by (intro power_int_strict_increasing) simp_all
qed

lemma pow2_le_iff: "((2::real) powi a \<le> 2 powi b) = (a \<le> b)"
  using pow2_less_iff[of b a] by (simp add: not_less[symmetric] del: not_less)

lemma ulp_pos [simp]: "0 < ulp x"
  by (simp add: ulp_def)

lemma ulp_nonneg [simp]: "0 \<le> ulp x"
  by (rule less_imp_le) simp

lemma ulp_neq0 [simp]: "ulp x \<noteq> 0"
  using ulp_pos[of x] by linarith

lemma expo_ge_min: "- 1022 \<le> expo x"
  by (simp add: expo_def)

lemma expo_le:
  assumes "x \<noteq> 0" "\<bar>x\<bar> < 2 powi (k + 1)" "- 1022 \<le> k"
  shows "expo x \<le> k"
proof -
  from assms(1) have pos: "0 < \<bar>x\<bar>" by simp
  from floor_log2_bounds[OF pos] assms(2)
  have "(2::real) powi \<lfloor>log 2 \<bar>x\<bar>\<rfloor> < 2 powi (k + 1)" by linarith
  then have "\<lfloor>log 2 \<bar>x\<bar>\<rfloor> < k + 1"
    by (simp add: pow2_less_iff)
  with assms(3) show ?thesis by (simp add: expo_def)
qed

lemma expo_ge:
  assumes "2 powi k \<le> \<bar>x\<bar>"
  shows "k \<le> expo x"
proof -
  have "(0::real) < 2 powi k" by simp
  with assms have pos: "0 < \<bar>x\<bar>" by linarith
  from floor_log2_bounds[OF pos] assms
  have "(2::real) powi k < 2 powi (\<lfloor>log 2 \<bar>x\<bar>\<rfloor> + 1)" by linarith
  then have "k < \<lfloor>log 2 \<bar>x\<bar>\<rfloor> + 1"
    by (simp add: pow2_less_iff)
  then show ?thesis by (simp add: expo_def)
qed

lemma expo_eq:
  assumes "2 powi e \<le> \<bar>x\<bar>" "\<bar>x\<bar> < 2 powi (e + 1)" "- 1022 \<le> e"
  shows "expo x = e"
proof -
  have "(0::real) < 2 powi e" by simp
  with assms(1) have "0 < \<bar>x\<bar>" by linarith
  then have "x \<noteq> 0" by simp
  from expo_le[OF this assms(2,3)] expo_ge[OF assms(1)] show ?thesis by simp
qed

lemma expo_upper:
  assumes "x \<noteq> 0"
  shows "\<bar>x\<bar> < 2 powi (expo x + 1)"
proof -
  from assms have pos: "0 < \<bar>x\<bar>" by simp
  have "\<lfloor>log 2 \<bar>x\<bar>\<rfloor> + 1 \<le> expo x + 1" by (simp add: expo_def)
  then have "(2::real) powi (\<lfloor>log 2 \<bar>x\<bar>\<rfloor> + 1) \<le> 2 powi (expo x + 1)"
    by (intro power_int_increasing) simp_all
  with floor_log2_bounds[OF pos] show ?thesis by linarith
qed

lemma expo_lower:
  assumes "x \<noteq> 0" "- 1022 < expo x"
  shows "2 powi (expo x) \<le> \<bar>x\<bar>"
proof -
  from assms(1) have pos: "0 < \<bar>x\<bar>" by simp
  from assms(2) have "expo x = \<lfloor>log 2 \<bar>x\<bar>\<rfloor>" by (simp add: expo_def max_def split: if_splits)
  with floor_log2_bounds[OF pos] show ?thesis by simp
qed

lemma expo_lower':
  assumes "2 powi (- 1022) \<le> \<bar>x\<bar>"
  shows "2 powi (expo x) \<le> \<bar>x\<bar>"
proof (cases "- 1022 < expo x")
  case True
  have "(0::real) < 2 powi (- 1022)" by simp
  with assms have "0 < \<bar>x\<bar>" by linarith
  then have "x \<noteq> 0" by simp
  from expo_lower[OF this True] show ?thesis .
next
  case False
  with expo_ge_min[of x] have "expo x = - 1022" by simp
  with assms show ?thesis by simp
qed

lemma rnd_0 [simp]: "rnd 0 = 0"
  by (simp add: rnd_def)

lemma rnd_eval:
  assumes "2 powi e \<le> \<bar>x\<bar>" "\<bar>x\<bar> < 2 powi (e + 1)" "- 1022 \<le> e"
  shows "rnd x = of_int (round_even (x / 2 powi (e - 52))) * 2 powi (e - 52)"
proof -
  have "(0::real) < 2 powi e" by simp
  with assms(1) have "0 < \<bar>x\<bar>" by linarith
  then have "x \<noteq> 0" by simp
  with expo_eq[OF assms] show ?thesis by (simp add: rnd_def ulp_def)
qed

lemma rnd_eval_sub:
  assumes "x \<noteq> 0" "\<bar>x\<bar> < 2 powi (- 1022)"
  shows "rnd x = of_int (round_even (x / 2 powi (- 1074))) * 2 powi (- 1074)"
proof -
  from assms(1) have pos: "0 < \<bar>x\<bar>" by simp
  from floor_log2_bounds[OF pos] assms(2)
  have "(2::real) powi \<lfloor>log 2 \<bar>x\<bar>\<rfloor> < 2 powi (- 1022)" by linarith
  then have "\<lfloor>log 2 \<bar>x\<bar>\<rfloor> < - 1022" by (simp only: pow2_less_iff)
  then have "expo x = - 1022" by (simp add: expo_def)
  with assms(1) show ?thesis by (simp add: rnd_def ulp_def)
qed

lemma rnd_nonneg: "0 \<le> x \<Longrightarrow> 0 \<le> rnd x"
proof -
  assume x: "0 \<le> x"
  have "0 \<le> x / ulp x" using x by (simp add: divide_nonneg_pos)
  then have "0 \<le> round_even (x / ulp x)" using round_even_ge[of 0] by simp
  then show ?thesis by (simp add: rnd_def mult_nonneg_nonneg)
qed

lemma rnd_nonpos: "x \<le> 0 \<Longrightarrow> rnd x \<le> 0"
proof -
  assume x: "x \<le> 0"
  have "x / ulp x \<le> 0" using x by (simp add: divide_nonpos_pos)
  then have "round_even (x / ulp x) \<le> 0" using round_even_le[of _ 0] by simp
  then show ?thesis by (simp add: rnd_def mult_nonpos_nonneg)
qed

lemma rnd_le_grid:
  assumes "x \<le> z" and "z = of_int k * ulp x"
  shows "rnd x \<le> z"
proof (cases "x = 0")
  case True
  with assms(1) show ?thesis by simp
next
  case False
  from assms have "x / ulp x \<le> of_int k" by (simp add: pos_divide_le_eq)
  then have "round_even (x / ulp x) \<le> k" by (rule round_even_le)
  then have "of_int (round_even (x / ulp x)) * ulp x \<le> of_int k * ulp x"
    by (simp add: mult_right_mono)
  with False assms(2) show ?thesis by (simp add: rnd_def)
qed

lemma rnd_ge_grid:
  assumes "z \<le> x" and "z = of_int k * ulp x"
  shows "z \<le> rnd x"
proof (cases "x = 0")
  case True
  with assms(1) show ?thesis by simp
next
  case False
  from assms have "of_int k \<le> x / ulp x" by (simp add: pos_le_divide_eq)
  then have "k \<le> round_even (x / ulp x)" by (rule round_even_ge)
  then have "of_int k * ulp x \<le> of_int (round_even (x / ulp x)) * ulp x"
    by (simp add: mult_right_mono)
  with False assms(2) show ?thesis by (simp add: rnd_def)
qed

lemma pow2_nat: "0 \<le> d \<Longrightarrow> (2::real) powi d = of_int (2 ^ nat d)"
  by (simp add: power_int_def)

lemma pow2_add: "(2::real) powi (a + b) = 2 powi a * 2 powi b"
  by (simp add: power_int_add)

lemma pow2_diff: "(2::real) powi (a - b) = 2 powi a / 2 powi b"
  by (simp add: power_int_diff)

lemma rnd_exact_grid:
  assumes "x = of_int m * ulp x"
  shows "rnd x = x"
proof (cases "x = 0")
  case True
  then show ?thesis by simp
next
  case False
  from assms have "x / ulp x = of_int m" by (simp add: nonzero_divide_eq_eq)
  then have "round_even (x / ulp x) = m" by simp
  with False assms show ?thesis by (simp add: rnd_def)
qed

lemma rnd_dyadic:
  assumes m: "\<bar>m\<bar> < 2 ^ 53" and j: "- 1074 \<le> j"
  shows "rnd (of_int m * 2 powi j) = of_int m * 2 powi j"
proof (cases "m = 0")
  case True
  then show ?thesis by simp
next
  case False
  define x where "x = real_of_int m * 2 powi j"
  from False have x0: "x \<noteq> 0" by (simp add: x_def)
  have "\<bar>x\<bar> = real_of_int \<bar>m\<bar> * 2 powi j" by (simp add: x_def abs_mult)
  also have "\<dots> < real_of_int (2 ^ 53) * 2 powi j"
    using m by (intro mult_strict_right_mono) (simp_all only: of_int_less_iff pow2_pos)
  also have "real_of_int (2 ^ 53) = 2 powi 53" by (simp add: power_int_def)
  also have "(2::real) powi 53 * 2 powi j = 2 powi ((52 + j) + 1)"
    by (simp only: pow2_add[symmetric]) (simp add: add.commute add.left_commute)
  finally have up: "\<bar>x\<bar> < 2 powi ((52 + j) + 1)" .
  from j have "- 1022 \<le> 52 + j" by simp
  from expo_le[OF x0 up this] have e: "expo x \<le> 52 + j" .
  define d where "d = 52 + j - expo x"
  from e have d0: "0 \<le> d" by (simp add: d_def)
  have "ulp x = 2 powi (j - d)" by (simp add: ulp_def d_def)
  then have u: "ulp x = 2 powi j / 2 powi d" by (simp add: pow2_diff)
  have eq: "real_of_int m * 2 powi j = real_of_int (m * 2 ^ nat d) * (2 powi j / 2 powi d)"
    using d0 by (simp add: pow2_nat)
  have "x = real_of_int (m * 2 ^ nat d) * ulp x"
    by (subst u, subst x_def, rule eq)
  then have "rnd x = x" by (rule rnd_exact_grid)
  then show ?thesis by (simp add: x_def)
qed

lemma rnd_of_int: "\<bar>k\<bar> < 2 ^ 53 \<Longrightarrow> rnd (of_int k) = of_int k"
  using rnd_dyadic[of k 0] by simp

lemma rnd_numeral [simp]:
  "numeral w < (9007199254740992::int) \<Longrightarrow> rnd (numeral w) = numeral w"
  using rnd_of_int[of "numeral w"] by simp

lemma rnd_1 [simp]: "rnd 1 = 1"
  using rnd_of_int[of 1] by simp

lemma rnd_neg_numeral [simp]:
  "numeral w < (9007199254740992::int) \<Longrightarrow> rnd (- numeral w) = - numeral w"
  using rnd_of_int[of "- numeral w"] by simp

lemma quotient_bound:
  assumes "x \<noteq> 0"
  shows "\<bar>x / ulp x\<bar> < 2 ^ 53"
proof -
  from expo_upper[OF assms] have "\<bar>x\<bar> < 2 powi (expo x + 1)" .
  also have "(2::real) powi (expo x + 1) = 2 powi 53 * ulp x"
  proof -
    have "expo x + 1 = 53 + (expo x - 52)" by simp
    then show ?thesis by (simp only: ulp_def pow2_add)
  qed
  finally have "\<bar>x\<bar> / ulp x < 2 powi 53" by (simp add: pos_divide_less_eq)
  moreover have "(2::real) powi 53 = 2 ^ 53" by (simp add: power_int_def)
  ultimately show ?thesis by (simp add: abs_divide del: power_int_numeral)
qed

lemma round_even_bound:
  assumes "\<bar>y\<bar> < 2 ^ 53"
  shows "\<bar>round_even y\<bar> \<le> 2 ^ 53"
proof -
  from assms have "y \<le> real_of_int (2 ^ 53)" "real_of_int (- (2 ^ 53)) \<le> y" by simp_all
  from round_even_le[OF this(1)] round_even_ge[OF this(2)] show ?thesis by simp
qed

lemma rnd_idem [simp]: "rnd (rnd x) = rnd x"
proof (cases "x = 0")
  case True
  then show ?thesis by simp
next
  case False
  define M where "M = round_even (x / ulp x)"
  define j where "j = expo x - 52"
  have r: "rnd x = real_of_int M * 2 powi j"
    using False by (simp add: rnd_def M_def j_def ulp_def)
  have j: "- 1074 \<le> j" using expo_ge_min[of x] by (simp add: j_def)
  from round_even_bound[OF quotient_bound[OF False]] have M: "\<bar>M\<bar> \<le> 2 ^ 53" by (simp add: M_def)
  show ?thesis
  proof (cases "\<bar>M\<bar> < 2 ^ 53")
    case True
    from rnd_dyadic[OF True j] show ?thesis by (simp add: r)
  next
    case False
    with M have "\<bar>M\<bar> = 2 ^ 53" by simp
    then have "M = 2 ^ 53 \<or> M = - (2 ^ 53)" by (simp add: abs_if split: if_splits)
    then have "M = 2 * (M div 2)" "\<bar>M div 2\<bar> < 2 ^ 53" by auto
    from this(1) have "real_of_int M = 2 * real_of_int (M div 2)"
      by (metis of_int_mult of_int_numeral)
    then have "real_of_int M * 2 powi j = real_of_int (M div 2) * 2 powi (j + 1)"
      by (simp add: pow2_add)
    moreover from j have "- 1074 \<le> j + 1" by simp
    ultimately show ?thesis
      using rnd_dyadic[OF \<open>\<bar>M div 2\<bar> < 2 ^ 53\<close>, of "j + 1"] by (simp add: r)
  qed
qed

lemma rnd_le_int:
  assumes "x \<le> of_int k" and "expo x \<le> 52"
  shows "rnd x \<le> of_int k"
proof -
  define d where "d = 52 - expo x"
  from assms(2) have d: "0 \<le> d" by (simp add: d_def)
  have "ulp x = 2 powi (- d)" by (simp add: ulp_def d_def)
  then have "ulp x = 1 / of_int (2 ^ nat d)" using d by (simp add: power_int_minus pow2_nat field_simps)
  then have "real_of_int k = real_of_int (k * 2 ^ nat d) * ulp x" by simp
  from rnd_le_grid[OF assms(1) this] show ?thesis .
qed

lemma rnd_ge_int:
  assumes "of_int k \<le> x" and "expo x \<le> 52"
  shows "of_int k \<le> rnd x"
proof -
  define d where "d = 52 - expo x"
  from assms(2) have d: "0 \<le> d" by (simp add: d_def)
  have "ulp x = 2 powi (- d)" by (simp add: ulp_def d_def)
  then have "ulp x = 1 / of_int (2 ^ nat d)" using d by (simp add: power_int_minus pow2_nat field_simps)
  then have "real_of_int k = real_of_int (k * 2 ^ nat d) * ulp x" by simp
  from rnd_ge_grid[OF assms(1) this] show ?thesis .
qed

lemma rnd_abs_le_pow2:
  assumes "\<bar>x\<bar> \<le> 2 powi n" and "- 1074 \<le> n"
  shows "\<bar>rnd x\<bar> \<le> 2 powi n"
proof (cases "x = 0")
  case True
  then show ?thesis by (simp add: less_imp_le)
next
  case False
  have "(2::real) powi n < 2 powi ((n + 52) + 1)" by (simp add: pow2_less_iff)
  with assms(1) have "\<bar>x\<bar> < 2 powi ((n + 52) + 1)" by linarith
  from expo_le[OF False this] assms(2) have "expo x \<le> n + 52" by simp
  define d where "d = n + 52 - expo x"
  from \<open>expo x \<le> n + 52\<close> have d: "0 \<le> d" by (simp add: d_def)
  have "n = d + (expo x - 52)" by (simp add: d_def)
  then have "(2::real) powi n = 2 powi d * ulp x" by (simp only: ulp_def pow2_add[symmetric])
  then have g: "(2::real) powi n = real_of_int (2 ^ nat d) * ulp x"
    "- ((2::real) powi n) = real_of_int (- (2 ^ nat d)) * ulp x"
    using d by (simp_all add: pow2_nat)
  from assms(1) have "x \<le> 2 powi n" "- (2 powi n) \<le> x" by linarith+
  from rnd_le_grid[OF this(1) g(1)] rnd_ge_grid[OF this(2) g(2)] show ?thesis by linarith
qed

lemma to_number_finite:
  assumes "\<bar>x\<bar> \<le> 2 ^ 1023"
  shows "to_number x = Fin (rnd x)"
proof -
  have "(2::real) ^ 1023 = 2 powi 1023" by (simp add: power_int_def)
  with assms have "\<bar>x\<bar> \<le> 2 powi 1023" by (simp only:)
  from rnd_abs_le_pow2[OF this] have "\<bar>rnd x\<bar> \<le> 2 powi 1023" by simp
  moreover have "(2::real) powi 1023 < 2 powi 1024" by (simp only: pow2_less_iff)
  moreover have "(2::real) powi 1024 = 2 ^ 1024" by (simp add: power_int_def)
  ultimately have "\<bar>rnd x\<bar> < 2 ^ 1024" by (simp only:)
  then have "\<not> 2 ^ 1024 \<le> rnd x" "\<not> rnd x \<le> - (2 ^ 1024)" by linarith+
  then show ?thesis unfolding to_number_def Let_def by (simp only: if_False)
qed

lemma to_number_0 [simp]: "to_number 0 = Fin 0"
  by (simp add: to_number_def)

lemma to_number_small: "\<bar>x\<bar> \<le> 9007199254740992 \<Longrightarrow> to_number x = Fin (rnd x)"
proof -
  assume a: "\<bar>x\<bar> \<le> 9007199254740992"
  have "(9007199254740992::real) = 2 ^ 53" by simp
  moreover have "(2::real) ^ 53 \<le> 2 ^ 1023" by (rule power_increasing) simp_all
  ultimately have "\<bar>x\<bar> \<le> 2 ^ 1023" using a by linarith
  then show ?thesis by (rule to_number_finite)
qed

lemma finite_to_number: "\<bar>x\<bar> \<le> 9007199254740992 \<Longrightarrow> finite_n (to_number x)"
  by (simp add: to_number_small finite_n_def)

lemma rnd_le_100:
  assumes "x \<le> 100" and "- 100 \<le> x"
  shows "rnd x \<le> 100"
proof (cases "x = 0")
  case True
  then show ?thesis by simp
next
  case False
  from assms have "\<bar>x\<bar> < 2 powi (6 + 1)" by simp
  from expo_le[OF False this] have "expo x \<le> 52" by simp
  from rnd_le_int[of x 100, OF _ this] assms(1) show ?thesis by simp
qed

section \<open>Properties of trade settlement\<close>

lemma row_of_key: "row_of uid aid r = (key_of r = (uid, aid))"
  by (auto simp: row_of_def key_of_def)

lemma filter_distinct_key:
  "distinct (map key_of rs) \<Longrightarrow>
     filter (row_of uid aid) rs = (case find (row_of uid aid) rs of None \<Rightarrow> [] | Some r \<Rightarrow> [r])"
proof (induction rs)
  case Nil
  then show ?case by simp
next
  case (Cons r rs)
  show ?case
  proof (cases "row_of uid aid r")
    case True
    then have "key_of r = (uid, aid)" by (simp add: row_of_key)
    with Cons.prems have "\<forall>x\<in>set rs. \<not> row_of uid aid x"
      by (force simp: row_of_key)
    then have "filter (row_of uid aid) rs = []" by (simp add: filter_empty_conv)
    with True show ?thesis by simp
  next
    case False
    with Cons show ?thesis by simp
  qed
qed

lemma select_ownership_inv:
  "distinct (map key_of (user_assets db)) \<Longrightarrow>
     select_ownership False db uid aid = StoreOk (find (row_of uid aid) (user_assets db))"
  by (simp add: select_ownership_def filter_distinct_key split: option.splits)

lemma select_ownership_fails [simp]: "select_ownership True db uid aid = StoreError"
  by (simp add: select_ownership_def)

lemma key_of_update [simp]: "key_of (r\<lparr>ownership_percent := v\<rparr>) = key_of r"
  by (simp add: key_of_def)

lemma row_of_update [simp]: "row_of uid aid (r\<lparr>ownership_percent := v\<rparr>) = row_of uid aid r"
  by (simp add: row_of_def)

lemma list_ex_row_of: "list_ex (row_of uid aid) rs = ((uid, aid) \<in> set (map key_of rs))"
  by (induction rs) (auto simp: row_of_key)

lemma find_row_of_None: "(find (row_of uid aid) rs = None) = (\<not> list_ex (row_of uid aid) rs)"
  by (auto simp: find_None_iff list_ex_iff)

lemma find_row_of_Some: "find (row_of uid aid) rs = Some r \<Longrightarrow> r \<in> set rs \<and> row_of uid aid r"
  by (auto simp: find_Some_iff)

text \<open>What a successful ownership write leaves in the store.\<close>

lemma persist_ownership_frame:
  assumes "persist_ownership flt db aid uid cur n = Inr db'"
  shows "assets db' = assets db \<and> profiles db' = profiles db
         \<and> transactions db' = transactions db \<and> \<not> write_fails flt"
  using assms
  by (auto simp: persist_ownership_def delete_ownership_def update_ownership_def
        insert_ownership_def split: if_splits store_result.splits)

lemma persist_ownership_rows:
  assumes "persist_ownership flt db aid uid cur n = Inr db'"
  shows "user_assets db' =
           (if n = 0 then filter (\<lambda>r. \<not> row_of uid aid r) (user_assets db)
            else if cur \<noteq> None
              then map (\<lambda>r. if row_of uid aid r then r\<lparr>ownership_percent := n\<rparr> else r)
                     (user_assets db)
              else user_assets db @ [\<lparr>ua_user_id = uid, ua_asset_id = aid, ownership_percent = n\<rparr>])"
  using assms
  by (auto simp: persist_ownership_def delete_ownership_def update_ownership_def
        insert_ownership_def split: if_splits store_result.splits)

lemma persist_ownership_inv:
  assumes "persist_ownership flt db aid uid cur n = Inr db'" and "ownership_inv db"
  shows "ownership_inv db'"
proof -
  let ?rs = "user_assets db"
  from assms(2) have la: "list_all (\<lambda>r. percent_check (ownership_percent r)) ?rs"
    and di: "distinct (map key_of ?rs)"
    by (simp_all add: ownership_inv_def)
  consider (del) "n = 0" | (upd) "n \<noteq> 0" "cur \<noteq> None" | (ins) "n \<noteq> 0" "cur = None"
    by blast
  then show ?thesis
  proof cases
    case del
    with assms(1) have "user_assets db' = filter (\<lambda>r. \<not> row_of uid aid r) ?rs"
      by (simp add: persist_ownership_rows)
    with la di show ?thesis
      by (simp add: ownership_inv_def list_all_iff distinct_map_filter)
  next
    case upd
    with assms(1) have rows: "user_assets db' =
        map (\<lambda>r. if row_of uid aid r then r\<lparr>ownership_percent := n\<rparr> else r) ?rs"
      by (simp add: persist_ownership_rows)
    from upd assms(1) have chk: "list_ex (row_of uid aid) ?rs \<longrightarrow> percent_check n"
      by (auto simp: persist_ownership_def update_ownership_def
            split: if_splits store_result.splits)
    have keys: "map key_of (user_assets db') = map key_of ?rs"
      unfolding rows by (induction ?rs) auto
    from la chk have "list_all (\<lambda>r. percent_check (ownership_percent r)) (user_assets db')"
      unfolding rows by (auto simp: list_all_iff list_ex_iff)
    with keys di show ?thesis by (simp add: ownership_inv_def)
  next
    case ins
    with assms(1) have rows: "user_assets db' =
        ?rs @ [\<lparr>ua_user_id = uid, ua_asset_id = aid, ownership_percent = n\<rparr>]"
      by (simp add: persist_ownership_rows)
    from ins assms(1) have chk: "percent_check n" and fresh: "\<not> list_ex (row_of uid aid) ?rs"
      by (auto simp: persist_ownership_def insert_ownership_def
            split: if_splits store_result.splits)
    from fresh have "(uid, aid) \<notin> set (map key_of ?rs)" by (simp add: list_ex_row_of)
    with la di chk show ?thesis
      by (simp add: rows ownership_inv_def key_of_def)
  qed
qed

lemma record_transaction_rows:
  "user_assets (fst (record_transaction flt db aid uid pct m price n)) = user_assets db"
  by (simp add: record_transaction_def insert_transaction_def caught_def
        split: store_result.splits)

lemma settle_inv:
  assumes "ownership_inv db"
  shows "ownership_inv (fst (settle flt db aid uid pct m price cur n))"
proof (cases "persist_ownership flt db aid uid cur n")
  case (Inl msg)
  with assms show ?thesis by (simp add: settle_def caught_def)
next
  case (Inr db')
  with assms have "ownership_inv db'" by (simp add: persist_ownership_inv)
  then have "ownership_inv (fst (record_transaction flt db' aid uid pct m price n))"
    by (simp add: ownership_inv_def record_transaction_rows)
  with Inr show ?thesis by (simp add: settle_def)
qed

lemma execute_trade_inv:
  assumes "ownership_inv db"
  shows "ownership_inv (fst (execute_trade flt db req))"
  using assms
  by (auto simp: execute_trade_def caught_def Let_def settle_inv split: store_result.splits)

lemma execute_trade_valid:
  assumes "assetId req = Some aid" "userId req = Some uid" "percentage req = Some pct"
    "mode req = Some m" "pricePerPercent req = Some price"
    and "m \<noteq> []" "price \<noteq> 0" "0 < pct" "pct \<le> 100"
    and "distinct (map key_of (user_assets db))" "\<not> fetch_fails flt"
  shows "execute_trade flt db req =
     (if m = ''buy'' then
        (if rnd (holding db uid aid + pct) > 100
         then caught db ''Cannot own more than 100% of an asset''
         else settle flt db aid uid pct m price (find (row_of uid aid) (user_assets db))
                (rnd (holding db uid aid + pct)))
      else if holding db uid aid < pct then caught db ''Insufficient ownership to sell''
      else settle flt db aid uid pct m price (find (row_of uid aid) (user_assets db))
             (rnd (holding db uid aid - pct)))"
  using assms
  by (simp add: execute_trade_def missing_fields_def select_ownership_inv holding_def Let_def)

lemma execute_trade_success:
  assumes "execute_trade flt db req = (db', (200, Success n))"
  shows "\<exists>aid uid pct m price cur db1.
           assetId req = Some aid \<and> userId req = Some uid \<and> percentage req = Some pct
           \<and> mode req = Some m \<and> pricePerPercent req = Some price
           \<and> m \<noteq> [] \<and> price \<noteq> 0 \<and> 0 < pct \<and> pct \<le> 100
           \<and> select_ownership (fetch_fails flt) db uid aid = StoreOk cur
           \<and> n = rnd ((case cur of Some r \<Rightarrow> rnd (ownership_percent r) | None \<Rightarrow> 0)
                 + (if m = ''buy'' then pct else - pct))
           \<and> persist_ownership flt db aid uid cur n = Inr db1
           \<and> insert_transaction (tx_fails flt) db1 (trade_transaction aid uid pct m price)
               = StoreOk db'"
proof -
  from assms have nm: "\<not> missing_fields req"
    by (auto simp: execute_trade_def caught_def)
  then obtain aid uid pct m price where f: "assetId req = Some aid" "userId req = Some uid"
    "percentage req = Some pct" "mode req = Some m" "pricePerPercent req = Some price"
    and nz: "m \<noteq> []" "price \<noteq> 0" "pct \<noteq> 0"
    by (auto simp: missing_fields_def)
  from assms nm f have rng: "0 < pct" "pct \<le> 100"
    by (auto simp: execute_trade_def caught_def Let_def split: if_splits)
  from assms nm f rng obtain cur where
    sel: "select_ownership (fetch_fails flt) db uid aid = StoreOk cur"
    by (cases "select_ownership (fetch_fails flt) db uid aid")
       (auto simp: execute_trade_def caught_def Let_def)
  define cp where "cp = (case cur of Some r \<Rightarrow> rnd (ownership_percent r) | None \<Rightarrow> 0)"
  define n' where "n' = rnd (cp + (if m = ''buy'' then pct else - pct))"
  from assms nm f rng sel have st: "settle flt db aid uid pct m price cur n' = (db', (200, Success n))"
    by (auto simp: execute_trade_def caught_def Let_def cp_def n'_def split: if_splits)
  then obtain db1 where per: "persist_ownership flt db aid uid cur n' = Inr db1"
    and rec: "record_transaction flt db1 aid uid pct m price n' = (db', (200, Success n))"
    by (cases "persist_ownership flt db aid uid cur n'") (auto simp: settle_def caught_def)
  from rec have ins: "insert_transaction (tx_fails flt) db1 (trade_transaction aid uid pct m price)
      = StoreOk db'" and nn: "n = n'"
    by (auto simp: record_transaction_def caught_def split: store_result.splits)
  from f nz rng sel per ins nn show ?thesis
    unfolding n'_def cp_def by blast
qed

lemma find_filter_not: "find P (filter (\<lambda>r. \<not> P r) rs) = None"
  by (induction rs) auto

lemma find_map_update:
  "(\<And>r. P (f r) = P r) \<Longrightarrow>
     find P (map (\<lambda>r. if P r then f r else r) rs) = map_option f (find P rs)"
  by (induction rs) auto

lemma find_append_new: "find P rs = None \<Longrightarrow> P x \<Longrightarrow> find P (rs @ [x]) = Some x"
  by (induction rs) (auto split: if_splits)

lemma holding_bounds:
  assumes "ownership_inv db"
  shows "0 \<le> holding db uid aid \<and> holding db uid aid \<le> 100"
proof (cases "find (row_of uid aid) (user_assets db)")
  case None
  then show ?thesis by (simp add: holding_def)
next
  case (Some r)
  then have "r \<in> set (user_assets db)" by (simp add: find_row_of_Some)
  with assms have "percent_check (ownership_percent r)"
    by (simp add: ownership_inv_def list_all_iff)
  then have "0 \<le> ownership_percent r" "ownership_percent r \<le> 100" "- 100 \<le> ownership_percent r"
    by (simp_all add: percent_check_def)
  from rnd_nonneg[OF this(1)] rnd_le_100[OF this(2,3)] Some show ?thesis
    by (simp add: holding_def)
qed

lemma holding_double [simp]: "rnd (holding db uid aid) = holding db uid aid"
  by (simp add: holding_def split: option.splits)

lemma holding_row: "holding db uid aid \<noteq> 0 \<Longrightarrow> find (row_of uid aid) (user_assets db) \<noteq> None"
  by (cases "find (row_of uid aid) (user_assets db)") (simp_all add: holding_def)

lemma persist_ownership_holding:
  assumes "persist_ownership flt db aid uid (find (row_of uid aid) (user_assets db)) n = Inr db'"
  shows "holding db' uid aid = rnd n"
proof -
  let ?cur = "find (row_of uid aid) (user_assets db)"
  note rows = persist_ownership_rows[OF assms]
  consider (del) "n = 0" | (upd) "n \<noteq> 0" "?cur \<noteq> None" | (ins) "n \<noteq> 0" "?cur = None"
    by blast
  then show ?thesis
  proof cases
    case del
    then show ?thesis by (simp add: rows holding_def find_filter_not)
  next
    case upd
    then obtain r where "?cur = Some r" by blast
    with upd show ?thesis
      by (simp add: rows holding_def find_map_update)
  next
    case ins
    then show ?thesis
      by (simp add: rows holding_def find_append_new row_of_def)
  qed
qed

lemma persist_ownership_ok:
  assumes "ownership_inv db" and "\<not> write_fails flt" and "0 \<le> n" "n \<le> 100"
    and "find (row_of uid aid) (user_assets db) = None \<longrightarrow>
           uid \<in> set (profiles db) \<and> aid \<in> set (assets db)"
  shows "\<exists>db'. persist_ownership flt db aid uid (find (row_of uid aid) (user_assets db)) n = Inr db'"
  using assms
  by (auto simp: persist_ownership_def delete_ownership_def update_ownership_def
        insert_ownership_def percent_check_def find_row_of_None)

lemma insert_transaction_frame:
  assumes "insert_transaction f db t = StoreOk db'"
  shows "db' = db\<lparr>transactions := transactions db @ [t]\<rparr>
         \<and> (transaction_type t = ''buy'' \<or> transaction_type t = ''sell'') \<and> \<not> f
         \<and> finite_n (total_price t)"
  using assms by (auto simp: insert_transaction_def split: if_splits)

lemma holding_transactions_update [simp]:
  "holding (db\<lparr>transactions := ts\<rparr>) uid aid = holding db uid aid"
  by (simp add: holding_def)

lemma ownership_inv_transactions_update [simp]:
  "ownership_inv (db\<lparr>transactions := ts\<rparr>) = ownership_inv db"
  by (simp add: ownership_inv_def)

text \<open>One buy that fits, on a store that answers.\<close>

lemma buy_step:
  assumes inv: "ownership_inv db" and fk: "uid \<in> set (profiles db)" "aid \<in> set (assets db)"
    and p: "0 < p" "p \<le> 100" "price \<noteq> 0" and fin: "finite_n (times_n (Fin p) (Fin price))"
    and fits: "rnd (holding db uid aid + p) \<le> 100"
  shows "\<exists>db'. execute_trade no_faults db (buy_request uid aid (p, price))
                 = (db', (200, Success (rnd (holding db uid aid + p))))
              \<and> ownership_inv db' \<and> profiles db' = profiles db \<and> assets db' = assets db
              \<and> holding db' uid aid = rnd (holding db uid aid + p)"
proof -
  let ?n = "rnd (holding db uid aid + p)"
  let ?cur = "find (row_of uid aid) (user_assets db)"
  from inv have di: "distinct (map key_of (user_assets db))" by (simp add: ownership_inv_def)
  from holding_bounds[OF inv, of uid aid] p have "0 \<le> holding db uid aid + p" by simp
  then have n: "0 \<le> ?n" by (rule rnd_nonneg)
  have ex: "execute_trade no_faults db (buy_request uid aid (p, price))
      = settle no_faults db aid uid p ''buy'' price ?cur ?n"
    using p fits di
    by (subst execute_trade_valid[where aid = aid and uid = uid and pct = p
          and m = "''buy''" and price = price])
       (simp_all add: buy_request_def no_faults_def)
  have "\<not> write_fails no_faults" by (simp add: no_faults_def)
  from persist_ownership_ok[OF inv this n fits, of uid aid] fk obtain db1 where
    per: "persist_ownership no_faults db aid uid ?cur ?n = Inr db1"
    by blast
  note fr = persist_ownership_frame[OF per]
  let ?t = "trade_transaction aid uid p ''buy'' price"
  from fr fk p fin have ins: "insert_transaction (tx_fails no_faults) db1 ?t
      = StoreOk (db1\<lparr>transactions := transactions db1 @ [?t]\<rparr>)"
    by (simp add: insert_transaction_def trade_transaction_def no_faults_def
          percent_check_def party_ok_def)
  from per ins have "settle no_faults db aid uid p ''buy'' price ?cur ?n
      = (db1\<lparr>transactions := transactions db1 @ [?t]\<rparr>, (200, Success ?n))"
    by (simp add: settle_def record_transaction_def)
  moreover have "ownership_inv db1" using per inv by (rule persist_ownership_inv)
  moreover have "holding db1 uid aid = ?n" using persist_ownership_holding[OF per] by simp
  ultimately show ?thesis using ex fr by simp
qed

lemma buy_reject:
  assumes inv: "ownership_inv db" and p: "0 < p" "p \<le> 100" "price \<noteq> 0"
    and over: "rnd (holding db uid aid + p) > 100" and "\<not> fetch_fails flt"
  shows "execute_trade flt db (buy_request uid aid (p, price))
           = (db, (400, Error ''Cannot own more than 100% of an asset''))"
proof -
  from inv have di: "distinct (map key_of (user_assets db))" by (simp add: ownership_inv_def)
  show ?thesis
    using p over di assms(6)
    by (subst execute_trade_valid[where aid = aid and uid = uid and pct = p
          and m = "''buy''" and price = price])
       (simp_all add: buy_request_def caught_def)
qed

lemma buy_sequence_from:
  assumes "ownership_inv db" "uid \<in> set (profiles db)" "aid \<in> set (assets db)"
    and "\<forall>b\<in>set bs. 0 < fst b \<and> fst b \<le> 100 \<and> snd b \<noteq> 0
           \<and> finite_n (times_n (Fin (fst b)) (Fin (snd b)))"
    and "\<forall>s\<in>set (running_sums (holding db uid aid) (map fst bs)). s \<le> 100"
  shows "\<exists>db'. run_trades no_faults db (map (buy_request uid aid) bs)
                 = (db', map (\<lambda>s. (200, Success s)) (running_sums (holding db uid aid) (map fst bs)))
              \<and> ownership_inv db'
              \<and> holding db' uid aid
                   = last (holding db uid aid # running_sums (holding db uid aid) (map fst bs))"
  using assms
proof (induction bs arbitrary: db)
  case Nil
  then show ?case by simp
next
  case (Cons b bs)
  obtain p price where b: "b = (p, price)" by (cases b)
  from Cons.prems(4) b have p: "0 < p" "p \<le> 100" "price \<noteq> 0"
    and fin: "finite_n (times_n (Fin p) (Fin price))" by simp_all
  from Cons.prems(5) b have fits: "rnd (holding db uid aid + p) \<le> 100" by simp
  from buy_step[OF Cons.prems(1-3) p fin fits] obtain db1 where
    step: "execute_trade no_faults db (buy_request uid aid (p, price))
             = (db1, (200, Success (rnd (holding db uid aid + p))))"
    and inv1: "ownership_inv db1" and fk1: "profiles db1 = profiles db" "assets db1 = assets db"
    and h1: "holding db1 uid aid = rnd (holding db uid aid + p)"
    by blast
  from Cons.prems(5) b h1
  have rest: "\<forall>s\<in>set (running_sums (holding db1 uid aid) (map fst bs)). s \<le> 100"
    by simp
  from Cons.prems(2,3) fk1 have fk: "uid \<in> set (profiles db1)" "aid \<in> set (assets db1)"
    by simp_all
  from Cons.prems(4) have all: "\<forall>b\<in>set bs. 0 < fst b \<and> fst b \<le> 100 \<and> snd b \<noteq> 0
           \<and> finite_n (times_n (Fin (fst b)) (Fin (snd b)))" by simp
  from Cons.IH[OF inv1 fk all rest] obtain db' where
    "run_trades no_faults db1 (map (buy_request uid aid) bs)
       = (db', map (\<lambda>s. (200, Success s)) (running_sums (holding db1 uid aid) (map fst bs)))"
    "ownership_inv db'"
    "holding db' uid aid
       = last (holding db1 uid aid # running_sums (holding db1 uid aid) (map fst bs))"
    by blast
  with step h1 b show ?case by simp
qed

lemma running_sums_whole:
  assumes "acc \<in> \<int>" "0 \<le> acc" "acc \<le> 100"
    and "\<forall>p\<in>set ps. p \<in> \<int> \<and> 0 < p \<and> p \<le> 100"
    and "\<forall>s\<in>set (running_sums acc ps). s \<le> 100"
  shows "running_sums acc ps = exact_sums acc ps"
  using assms
proof (induction ps arbitrary: acc)
  case Nil
  then show ?case by simp
next
  case (Cons p ps)
  from Cons.prems(4) have p: "p \<in> \<int>" "0 < p" "p \<le> 100" by simp_all
  from Cons.prems(1) p(1) have "acc + p \<in> \<int>" by simp
  then obtain k where k: "acc + p = of_int k" by (rule Ints_cases)
  from Cons.prems(2,3) p have "0 \<le> acc + p" "acc + p \<le> 200" by simp_all
  with k have "\<bar>k\<bar> < 2 ^ 53" by simp
  from rnd_of_int[OF this] k have r: "rnd (acc + p) = acc + p" by simp
  from Cons.prems(5) r have le: "acc + p \<le> 100" by simp
  from Cons.prems(5) r have rest: "\<forall>s\<in>set (running_sums (acc + p) ps). s \<le> 100" by simp
  from Cons.prems(4) have all: "\<forall>p\<in>set ps. p \<in> \<int> \<and> 0 < p \<and> p \<le> 100" by simp
  from Cons.IH[OF \<open>acc + p \<in> \<int>\<close> \<open>0 \<le> acc + p\<close> le all rest] r show ?case by simp
qed

lemma double_21_36: "rnd (534 / 25) = 1503076375634903 / 70368744177664"
  by (subst rnd_eval[where e = 4]) (simp_all add: round_even_def Let_def)

lemma double_45_76: "rnd (1144 / 25) = 6440147467139809 / 140737488355328"
  by (subst rnd_eval[where e = 5]) (simp_all add: round_even_def Let_def)

lemma double_31_45: "rnd (629 / 20) = 8852388017550131 / 281474976710656"
  by (subst rnd_eval[where e = 4]) (simp_all add: round_even_def Let_def)

lemma double_1_43: "rnd (143 / 100) = 6440147467139809 / 4503599627370496"
  by (subst rnd_eval[where e = 0]) (simp_all add: round_even_def Let_def)

lemma double_67_12: "rnd (1678 / 25) = 590393763650601 / 8796093022208"
  by (subst rnd_eval[where e = 6]) (simp_all add: round_even_def Let_def)

lemma double_98_57: "rnd (9857000000000001 / 100000000000000) = 6936247113592341 / 70368744177664"
  by (subst rnd_eval[where e = 6]) (simp_all add: round_even_def Let_def)

lemma double_100_01: "rnd (10000000000000001 / 100000000000000) = 7036874417766401 / 70368744177664"
  by (subst rnd_eval[where e = 6]) (simp_all add: round_even_def Let_def)

lemma sum_67_12: "rnd (9446300218409615 / 140737488355328) = 590393763650601 / 8796093022208"
  by (subst rnd_eval[where e = 6]) (simp_all add: round_even_def Let_def)

lemma sum_98_57: "rnd (27744988454369363 / 281474976710656) = 6936247113592341 / 70368744177664"
  by (subst rnd_eval[where e = 6]) (simp_all add: round_even_def Let_def)

lemma sum_100_01: "rnd (450359962737049633 / 4503599627370496) = 7036874417766401 / 70368744177664"
  by (subst rnd_eval[where e = 6]) (simp_all add: round_even_def Let_def)

lemma sum_100_tiny: "rnd (115292150460684697601 / 1152921504606846976) = 100"
  by (subst rnd_eval[where e = 6]) (simp_all add: round_even_def Let_def)

lemma read_21_36: "rnd (1503076375634903 / 70368744177664) = 1503076375634903 / 70368744177664"
  using rnd_idem[of "534 / 25"] by (simp only: double_21_36)

lemma read_67_12: "rnd (590393763650601 / 8796093022208) = 590393763650601 / 8796093022208"
  using rnd_idem[of "1678 / 25"] by (simp only: double_67_12)

lemma read_98_57: "rnd (6936247113592341 / 70368744177664) = 6936247113592341 / 70368744177664"
  using rnd_idem[of "9857000000000001 / 100000000000000"] by (simp only: double_98_57)

lemmas store_defs = select_ownership_def delete_ownership_def update_ownership_def
  insert_ownership_def insert_transaction_def party_ok_def percent_check_def row_of_def

lemmas handler_defs = execute_trade_def missing_fields_def caught_def settle_def
  persist_ownership_def record_transaction_def trade_transaction_def Let_def finite_to_number

text \<open>
  Claim C1 as stated fails, in two ways. The handler takes a price per percent of 0 for a
  missing field: a buy of 30 percent at price 0 by a user who holds nothing is rejected.
  And the handler adds doubles: the four buys of 21.36, 45.76, 31.45 and 1.43 percent have
  a sum that is at most 100, also as the sum of the four doubles, but the handler's fourth
  sum is 100.00000000000001 and the fourth buy is rejected; and after a buy of 100 percent
  a buy of 2 to the power -60 percent, which takes the sum above 100, is accepted, the
  handler's sum being 100.
\<close>

theorem buy_sequence_counterexample:
  "execute_trade no_faults market (buy_request 7 1 (30, 0))
     = (market, (400, Error ''Missing required fields''))
   \<and> snd (run_trades no_faults market (map (buy_request 7 1) rounding_buys))
       = [(200, Success (rnd (2136 / 100))), (200, Success (rnd (6712 / 100))),
          (200, Success (rnd (9857000000000001 / 100000000000000))),
          (400, Error ''Cannot own more than 100% of an asset'')]
   \<and> sum_list (map fst rounding_buys) \<le> 100
   \<and> 100 < rnd (rnd (rnd (rnd (2136 / 100) + rnd (4576 / 100)) + rnd (3145 / 100))
              + rnd (143 / 100))
   \<and> snd (run_trades no_faults market
             (map (buy_request 7 1) [(100, 150), (1 / 2 ^ 60, 150)]))
       = [(200, Success 100), (200, Success 100)]
   \<and> (100::real) < 100 + 1 / 2 ^ 60"
proof (intro conjI)
  show "execute_trade no_faults market (buy_request 7 1 (30, 0))
     = (market, (400, Error ''Missing required fields''))"
    by (simp add: execute_trade_def missing_fields_def caught_def buy_request_def)
  show "snd (run_trades no_faults market (map (buy_request 7 1) rounding_buys))
       = [(200, Success (rnd (2136 / 100))), (200, Success (rnd (6712 / 100))),
          (200, Success (rnd (9857000000000001 / 100000000000000))),
          (400, Error ''Cannot own more than 100% of an asset'')]"
    by (simp add: rounding_buys_def handler_defs store_defs buy_request_def market_def
          no_faults_def double_21_36 double_45_76 double_31_45 double_1_43 double_67_12
          double_98_57 sum_67_12 sum_98_57 sum_100_01 read_21_36 read_67_12 read_98_57)
  show "sum_list (map fst rounding_buys) \<le> 100"
    by (simp add: rounding_buys_def double_21_36 double_45_76 double_31_45 double_1_43)
  show "100 < rnd (rnd (rnd (rnd (2136 / 100) + rnd (4576 / 100)) + rnd (3145 / 100))
              + rnd (143 / 100))"
    by (simp add: double_21_36 double_45_76 double_31_45 double_1_43 sum_67_12 sum_98_57
          sum_100_01)
  show "snd (run_trades no_faults market
             (map (buy_request 7 1) [(100, 150), (1 / 2 ^ 60, 150)]))
       = [(200, Success 100), (200, Success 100)]"
    by (simp add: handler_defs store_defs buy_request_def market_def no_faults_def
          sum_100_tiny)
  show "(100::real) < 100 + 1 / 2 ^ 60" by simp
qed

text \<open>
  Claim C1, amended. A user who holds nothing of an asset sends buy requests one after the
  other, each with a percentage in (0, 100] and a price per percent that is not zero and gives
  a finite total price, to a store that answers and knows the user and the asset. The
  running sums are those of the doubles, each addition rounded to the nearest double. As
  long as these sums stay at or below 100, every request succeeds with status 200 and
  \<^verbatim>\<open>newOwnership\<close> equal to the running sum, and the stored ownership is the last sum. A
  further buy whose rounded sum is above 100 is rejected with an error and leaves the store
  as it was. When the percentages are whole numbers the rounded sums are the exact sums.
\<close>

theorem buy_sequence_running_sum:
  assumes "ownership_inv db" and "uid \<in> set (profiles db)" and "aid \<in> set (assets db)"
    and "find (row_of uid aid) (user_assets db) = None"
    and "\<forall>b\<in>set bs. 0 < fst b \<and> fst b \<le> 100 \<and> snd b \<noteq> 0
           \<and> finite_n (times_n (Fin (fst b)) (Fin (snd b)))"
    and "\<forall>s\<in>set (running_sums 0 (map fst bs)). s \<le> 100"
  shows "\<exists>db'. run_trades no_faults db (map (buy_request uid aid) bs)
                 = (db', map (\<lambda>s. (200, Success s)) (running_sums 0 (map fst bs)))
           \<and> holding db' uid aid = last (0 # running_sums 0 (map fst bs))
           \<and> (\<forall>p price. 0 < p \<and> p \<le> 100 \<and> price \<noteq> 0
                 \<and> rnd (last (0 # running_sums 0 (map fst bs)) + p) > 100 \<longrightarrow>
                 execute_trade no_faults db' (buy_request uid aid (p, price))
                   = (db', (400, Error ''Cannot own more than 100% of an asset'')))
           \<and> ((\<forall>b\<in>set bs. fst b \<in> \<int>) \<longrightarrow>
                 running_sums 0 (map fst bs) = exact_sums 0 (map fst bs))"
proof -
  from assms(4) have h0: "holding db uid aid = 0" by (simp add: holding_def)
  with assms(6) have "\<forall>s\<in>set (running_sums (holding db uid aid) (map fst bs)). s \<le> 100"
    by simp
  from buy_sequence_from[OF assms(1-3,5) this] h0 obtain db' where
    run: "run_trades no_faults db (map (buy_request uid aid) bs)
            = (db', map (\<lambda>s. (200, Success s)) (running_sums 0 (map fst bs)))"
    and inv: "ownership_inv db'"
    and h: "holding db' uid aid = last (0 # running_sums 0 (map fst bs))"
    by auto
  have rej: "execute_trade no_faults db' (buy_request uid aid (p, price))
          = (db', (400, Error ''Cannot own more than 100% of an asset''))"
    if "0 < p" "p \<le> 100" "price \<noteq> 0" "rnd (last (0 # running_sums 0 (map fst bs)) + p) > 100"
    for p price
    using that h by (intro buy_reject[OF inv]) (simp_all add: no_faults_def)
  have whole: "running_sums 0 (map fst bs) = exact_sums 0 (map fst bs)"
    if "\<forall>b\<in>set bs. fst b \<in> \<int>"
    using that assms(5,6) by (intro running_sums_whole) auto
  from run h rej whole show ?thesis by blast
qed

theorem buy_sequence_running_sum_witness:
  "\<exists>db'. run_trades no_faults market (map (buy_request 7 1) [(30, 150), (50, 150)])
           = (db', [(200, Success 30), (200, Success 80)])
        \<and> holding db' 7 1 = 80
        \<and> execute_trade no_faults db' (buy_request 7 1 (25, 150))
            = (db', (400, Error ''Cannot own more than 100% of an asset''))
        \<and> running_sums 0 [30, 50] = exact_sums 0 [30, 50]"
proof -
  have inv: "ownership_inv market" by (simp add: ownership_inv_def market_def)
  have a: "(7::nat) \<in> set (profiles market)" "(1::nat) \<in> set (assets market)"
    "find (row_of 7 1) (user_assets market) = None"
    by (simp_all add: market_def)
  have b: "\<forall>b\<in>set [(30::real, 150::real), (50, 150)]. 0 < fst b \<and> fst b \<le> 100 \<and> snd b \<noteq> 0
             \<and> finite_n (times_n (Fin (fst b)) (Fin (snd b)))"
    "\<forall>s\<in>set (running_sums 0 (map fst [(30::real, 150::real), (50, 150)])). s \<le> 100"
    by (simp_all add: finite_to_number)
  from buy_sequence_running_sum[OF inv a b] obtain db' where
    run: "run_trades no_faults market (map (buy_request 7 1) [(30, 150), (50, 150)])
            = (db', [(200, Success 30), (200, Success 80)])"
    and h: "holding db' 7 1 = 80"
    and rej: "\<forall>p price. 0 < p \<and> p \<le> 100 \<and> price \<noteq> 0 \<and> rnd ((80::real) + p) > 100 \<longrightarrow>
                execute_trade no_faults db' (buy_request 7 1 (p, price))
                  = (db', (400, Error ''Cannot own more than 100% of an asset''))"
    and whole: "running_sums 0 [30, 50] = exact_sums 0 [30, 50]"
    by auto
  from rej have "execute_trade no_faults db' (buy_request 7 1 (25, 150))
      = (db', (400, Error ''Cannot own more than 100% of an asset''))"
    by simp
  with run h whole show ?thesis by blast
qed

lemma sell_reject:
  assumes "assetId req = Some aid" "userId req = Some uid" "percentage req = Some pct"
    "mode req = Some m" "pricePerPercent req = Some price"
    and "m \<noteq> []" "m \<noteq> ''buy''" "price \<noteq> 0" "0 < pct" "pct \<le> 100"
    and "ownership_inv db" "\<not> fetch_fails flt" "holding db uid aid < pct"
  shows "execute_trade flt db req = (db, (400, Error ''Insufficient ownership to sell''))"
proof -
  from assms(11) have di: "distinct (map key_of (user_assets db))" by (simp add: ownership_inv_def)
  from assms(7,13) show ?thesis
    by (simp add: execute_trade_valid[OF assms(1-6,8-10) di assms(12)] caught_def)
qed

lemma execute_trade_success_rows:
  assumes ok: "execute_trade flt db req = (db', (200, Success n))" and inv: "ownership_inv db"
    and ids: "assetId req = Some aid" "userId req = Some uid"
  shows "0 \<le> n \<and> n \<le> 100 \<and> holding db' uid aid = n
     \<and> (find (row_of uid aid) (user_assets db') = None) = (n = 0)
     \<and> user_assets db' =
          (if n = 0 then filter (\<lambda>r. \<not> row_of uid aid r) (user_assets db)
           else if find (row_of uid aid) (user_assets db) \<noteq> None
             then map (\<lambda>r. if row_of uid aid r then r\<lparr>ownership_percent := n\<rparr> else r)
                    (user_assets db)
             else user_assets db @ [\<lparr>ua_user_id = uid, ua_asset_id = aid, ownership_percent = n\<rparr>])"
proof -
  from execute_trade_success[OF ok] ids obtain pct m cur db1 price where
    p: "percentage req = Some pct" "0 < pct" "pct \<le> 100" and m: "mode req = Some m"
    and sel: "select_ownership (fetch_fails flt) db uid aid = StoreOk cur"
    and n: "n = rnd ((case cur of Some r \<Rightarrow> rnd (ownership_percent r) | None \<Rightarrow> 0)
                + (if m = ''buy'' then pct else - pct))"
    and per: "persist_ownership flt db aid uid cur n = Inr db1"
    and ins: "insert_transaction (tx_fails flt) db1 (trade_transaction aid uid pct m price)
                = StoreOk db'"
    by auto
  let ?cur = "find (row_of uid aid) (user_assets db)"
  from inv have di: "distinct (map key_of (user_assets db))" by (simp add: ownership_inv_def)
  from sel have nf: "\<not> fetch_fails flt" by (auto simp: select_ownership_def split: if_splits)
  with sel di have cur: "cur = ?cur"
    by (simp add: select_ownership_inv)
  then have n': "n = rnd (holding db uid aid + (if m = ''buy'' then pct else - pct))"
    using n by (simp add: holding_def)
  then have nd: "rnd n = n" by simp
  from insert_transaction_frame[OF ins] have db': "db' = db1\<lparr>transactions := transactions db1 @
      [trade_transaction aid uid pct m price]\<rparr>" by simp
  have h: "holding db' uid aid = n"
    using per nd unfolding cur db' by (simp add: persist_ownership_holding)
  have rows: "user_assets db' = user_assets db1" by (simp add: db')
  note b = holding_bounds[OF inv, of uid aid]
  have lo: "0 \<le> n"
  proof (cases "m = ''buy''")
    case True
    from b p have "0 \<le> holding db uid aid + pct" by simp
    from rnd_nonneg[OF this] True n' show ?thesis by simp
  next
    case False
    with ok ids p m have "\<not> holding db uid aid < pct"
      using sell_reject[of req aid uid pct m _ db flt] execute_trade_success[OF ok] inv nf
      by auto
    then have "0 \<le> holding db uid aid - pct" by simp
    from rnd_nonneg[OF this] False n' show ?thesis by simp
  qed
  have hi: "n \<le> 100"
  proof (cases "m = ''buy''")
    case True
    have "\<not> rnd (holding db uid aid + pct) > 100"
    proof
      assume "rnd (holding db uid aid + pct) > 100"
      with ok ids p m True di nf execute_trade_success[OF ok] show False
        by (auto simp: execute_trade_valid[where aid = aid and uid = uid and pct = pct
              and m = m] caught_def)
    qed
    with True n' show ?thesis by simp
  next
    case False
    from b p have "holding db uid aid - pct \<le> 100" "- 100 \<le> holding db uid aid - pct"
      by simp_all
    from rnd_le_100[OF this] False n' show ?thesis by simp
  qed
  note ua = persist_ownership_rows[OF per]
  have gone: "(find (row_of uid aid) (user_assets db') = None) = (n = 0)"
  proof (cases "n = 0")
    case True
    with ua rows show ?thesis by (simp add: find_filter_not)
  next
    case nz: False
    show ?thesis
    proof (cases ?cur)
      case None
      with nz ua rows cur show ?thesis by (simp add: find_append_new row_of_def)
    next
      case (Some r)
      with nz ua rows cur show ?thesis by (simp add: find_map_update)
    qed
  qed
  from lo hi h gone rows ua cur show ?thesis by simp
qed

lemma record_transaction_holding:
  "holding (fst (record_transaction flt db aid' uid' pct m price n)) uid aid = holding db uid aid"
  by (simp add: holding_def record_transaction_rows)

lemma accepted_trade_written:
  assumes f: "assetId req = Some aid" "userId req = Some uid" "percentage req = Some pct"
    "mode req = Some m" "pricePerPercent req = Some price"
    and v: "m \<noteq> []" "price \<noteq> 0" "0 < pct" "pct \<le> 100"
    and inv: "ownership_inv db" and nf: "\<not> fetch_fails flt" and nw: "\<not> write_fails flt"
    and buy: "m = ''buy'' \<longrightarrow> rnd (holding db uid aid + pct) \<le> 100"
    and sell: "m \<noteq> ''buy'' \<longrightarrow> pct \<le> holding db uid aid"
    and fk: "find (row_of uid aid) (user_assets db) = None \<longrightarrow>
               uid \<in> set (profiles db) \<and> aid \<in> set (assets db)"
  shows "holding (fst (execute_trade flt db req)) uid aid
           = (if m = ''buy'' then rnd (holding db uid aid + pct)
              else rnd (holding db uid aid - pct))"
proof -
  let ?cur = "find (row_of uid aid) (user_assets db)"
  let ?n = "if m = ''buy'' then rnd (holding db uid aid + pct)
            else rnd (holding db uid aid - pct)"
  from inv have di: "distinct (map key_of (user_assets db))" by (simp add: ownership_inv_def)
  note b = holding_bounds[OF inv, of uid aid]
  have ex: "execute_trade flt db req = settle flt db aid uid pct m price ?cur ?n"
  proof (cases "m = ''buy''")
    case True
    with buy have "\<not> rnd (holding db uid aid + pct) > 100" by simp
    with True show ?thesis by (simp add: execute_trade_valid[OF f v di nf])
  next
    case False
    with sell have "\<not> holding db uid aid < pct" by simp
    with False show ?thesis by (simp add: execute_trade_valid[OF f v di nf])
  qed
  have n: "0 \<le> ?n" "?n \<le> 100"
  proof -
    show "0 \<le> ?n" using b v(3) sell by (auto intro!: rnd_nonneg)
    show "?n \<le> 100" using b v(3,4) buy by (auto intro!: rnd_le_100)
  qed
  from persist_ownership_ok[OF inv nw n fk] obtain db1 where
    per: "persist_ownership flt db aid uid ?cur ?n = Inr db1" by blast
  have "rnd ?n = ?n" by simp
  with persist_ownership_holding[OF per] have "holding db1 uid aid = ?n" by simp
  with per ex show ?thesis
    by (simp add: settle_def record_transaction_holding)
qed

text \<open>
  Claim C2. Every run of the handler, whatever the request and whatever store call fails,
  keeps the ownership table within its invariant: every percentage in (0, 100] and at most
  one row per (user, asset). A request of a mode other than buy with a percentage above the
  current holding is rejected and changes nothing, so a holding never goes below zero. After
  a successful trade the new ownership is in [0, 100], the row of the pair is gone exactly
  when the new ownership is zero, and otherwise the existing row was updated, or a row was
  inserted when there was none. The table accepts what the handler writes: when a trade
  passes the handler's checks and the fetch and the ownership write reach the store, the
  holding afterwards is the new ownership, whatever becomes of the transaction insert. The
  new ownership is the sum or the difference as the handler computes it, rounded to the
  nearest double.
\<close>

theorem trade_preserves_ownership_invariant:
  assumes "ownership_inv db"
  shows "ownership_inv (fst (execute_trade flt db req))
    \<and> (\<forall>aid uid pct m price.
          assetId req = Some aid \<and> userId req = Some uid \<and> percentage req = Some pct
          \<and> mode req = Some m \<and> pricePerPercent req = Some price
          \<and> m \<noteq> [] \<and> m \<noteq> ''buy'' \<and> price \<noteq> 0 \<and> 0 < pct \<and> pct \<le> 100
          \<and> \<not> fetch_fails flt \<and> holding db uid aid < pct
          \<longrightarrow> execute_trade flt db req = (db, (400, Error ''Insufficient ownership to sell'')))
    \<and> (\<forall>db' n aid uid.
          execute_trade flt db req = (db', (200, Success n))
          \<and> assetId req = Some aid \<and> userId req = Some uid
          \<longrightarrow> 0 \<le> n \<and> n \<le> 100 \<and> holding db' uid aid = n
              \<and> (find (row_of uid aid) (user_assets db') = None) = (n = 0)
              \<and> user_assets db' =
                  (if n = 0 then filter (\<lambda>r. \<not> row_of uid aid r) (user_assets db)
                   else if find (row_of uid aid) (user_assets db) \<noteq> None
                     then map (\<lambda>r. if row_of uid aid r then r\<lparr>ownership_percent := n\<rparr> else r)
                            (user_assets db)
                     else user_assets db @
                            [\<lparr>ua_user_id = uid, ua_asset_id = aid, ownership_percent = n\<rparr>]))
    \<and> (\<forall>aid uid pct m price.
          assetId req = Some aid \<and> userId req = Some uid \<and> percentage req = Some pct
          \<and> mode req = Some m \<and> pricePerPercent req = Some price
          \<and> m \<noteq> [] \<and> price \<noteq> 0 \<and> 0 < pct \<and> pct \<le> 100
          \<and> \<not> fetch_fails flt \<and> \<not> write_fails flt
          \<and> (m = ''buy'' \<longrightarrow> rnd (holding db uid aid + pct) \<le> 100)
          \<and> (m \<noteq> ''buy'' \<longrightarrow> pct \<le> holding db uid aid)
          \<and> (find (row_of uid aid) (user_assets db) = None \<longrightarrow>
                 uid \<in> set (profiles db) \<and> aid \<in> set (assets db))
          \<longrightarrow> holding (fst (execute_trade flt db req)) uid aid
                = (if m = ''buy'' then rnd (holding db uid aid + pct)
                   else rnd (holding db uid aid - pct)))"
proof (intro conjI allI impI)
  show inv': "ownership_inv (fst (execute_trade flt db req))"
    using assms by (rule execute_trade_inv)
next
  fix aid uid pct m price
  assume "assetId req = Some aid \<and> userId req = Some uid \<and> percentage req = Some pct
          \<and> mode req = Some m \<and> pricePerPercent req = Some price
          \<and> m \<noteq> [] \<and> m \<noteq> ''buy'' \<and> price \<noteq> 0 \<and> 0 < pct \<and> pct \<le> 100
          \<and> \<not> fetch_fails flt \<and> holding db uid aid < pct"
  with assms show "execute_trade flt db req = (db, (400, Error ''Insufficient ownership to sell''))"
    by (intro sell_reject[where aid = aid and uid = uid and pct = pct and m = m and price = price])
       simp_all
next
  fix db' n aid uid
  assume a: "execute_trade flt db req = (db', (200, Success n))
          \<and> assetId req = Some aid \<and> userId req = Some uid"
  then have ok: "execute_trade flt db req = (db', (200, Success n))"
    and ids: "assetId req = Some aid" "userId req = Some uid" by simp_all
  note r = execute_trade_success_rows[OF ok assms ids]
  from r show "0 \<le> n" "n \<le> 100" "holding db' uid aid = n" by simp_all
  from r show "user_assets db' =
                  (if n = 0 then filter (\<lambda>r. \<not> row_of uid aid r) (user_assets db)
                   else if find (row_of uid aid) (user_assets db) \<noteq> None
                     then map (\<lambda>r. if row_of uid aid r then r\<lparr>ownership_percent := n\<rparr> else r)
                            (user_assets db)
                     else user_assets db @
                            [\<lparr>ua_user_id = uid, ua_asset_id = aid, ownership_percent = n\<rparr>])"
    by simp
  show "(find (row_of uid aid) (user_assets db') = None) = (n = 0)"
    by (rule conjunct1[OF conjunct2[OF conjunct2[OF conjunct2[OF r]]]])
next
  fix aid uid pct m price
  assume a: "assetId req = Some aid \<and> userId req = Some uid \<and> percentage req = Some pct
          \<and> mode req = Some m \<and> pricePerPercent req = Some price
          \<and> m \<noteq> [] \<and> price \<noteq> 0 \<and> 0 < pct \<and> pct \<le> 100
          \<and> \<not> fetch_fails flt \<and> \<not> write_fails flt
          \<and> (m = ''buy'' \<longrightarrow> rnd (holding db uid aid + pct) \<le> 100)
          \<and> (m \<noteq> ''buy'' \<longrightarrow> pct \<le> holding db uid aid)
          \<and> (find (row_of uid aid) (user_assets db) = None \<longrightarrow>
                 uid \<in> set (profiles db) \<and> aid \<in> set (assets db))"
  show "holding (fst (execute_trade flt db req)) uid aid
                = (if m = ''buy'' then rnd (holding db uid aid + pct)
                   else rnd (holding db uid aid - pct))"
    using a assms
    by (intro accepted_trade_written[where price = price]) simp_all
qed

theorem trade_preserves_ownership_invariant_witness:
  "ownership_inv holder
   \<and> ownership_inv (fst (execute_trade no_faults holder (sell_request 7 1 (50, 150))))
   \<and> execute_trade no_faults holder (sell_request 7 1 (60, 150))
       = (holder, (400, Error ''Insufficient ownership to sell''))
   \<and> (\<exists>db'. execute_trade no_faults holder (sell_request 7 1 (50, 150)) = (db', (200, Success 0))
             \<and> holding db' 7 1 = 0 \<and> user_assets db' = [])"
proof -
  have inv: "ownership_inv holder"
    by (simp add: ownership_inv_def holder_def percent_check_def key_of_def)
  have h: "holding holder 7 1 = 50" by (simp add: holding_def holder_def row_of_def)
  note t = trade_preserves_ownership_invariant[OF inv, of no_faults]
  have full: "execute_trade no_faults holder (sell_request 7 1 (50, 150))
      = (holder\<lparr>user_assets := [], transactions :=
           [trade_transaction 1 7 50 ''sell'' 150]\<rparr>, (200, Success 0))"
    by (simp add: handler_defs store_defs sell_request_def holder_def no_faults_def)
  from t[of "sell_request 7 1 (60, 150)"] h
  have rej: "execute_trade no_faults holder (sell_request 7 1 (60, 150))
       = (holder, (400, Error ''Insufficient ownership to sell''))"
    by (simp add: sell_request_def no_faults_def)
  from t[of "sell_request 7 1 (50, 150)"] full
  have "ownership_inv (fst (execute_trade no_faults holder (sell_request 7 1 (50, 150))))"
    and "holding (holder\<lparr>user_assets := [], transactions :=
           [trade_transaction 1 7 50 ''sell'' 150]\<rparr>) 7 1 = 0"
    by (simp_all add: sell_request_def)
  with inv rej full show ?thesis by simp
qed

text \<open>
  Claim C3. A trade that answers with status 200 has appended exactly one row to the
  transactions table. Its mode is buy or sell; the buyer is the acting user and the seller
  is empty for a buy, the seller is the acting user and the buyer is empty for a sell, so
  exactly one of the two is populated; \<^verbatim>\<open>percent_traded\<close> is the requested percentage and
  \<^verbatim>\<open>total_price\<close> is the percentage times the price per percent, a finite number: the double
  nearest to the exact product.
\<close>

theorem successful_trade_transaction:
  assumes "execute_trade flt db req = (db', (200, Success n))"
  shows "\<exists>aid uid pct m price t.
           assetId req = Some aid \<and> userId req = Some uid \<and> percentage req = Some pct
           \<and> mode req = Some m \<and> pricePerPercent req = Some price
           \<and> transactions db' = transactions db @ [t]
           \<and> (m = ''buy'' \<or> m = ''sell'')
           \<and> buyer_id t = (if m = ''buy'' then Some uid else None)
           \<and> seller_id t = (if m = ''sell'' then Some uid else None)
           \<and> (buyer_id t = None) \<noteq> (seller_id t = None)
           \<and> percent_traded t = pct \<and> price_per_percent t = price
           \<and> total_price t = times_n (Fin pct) (Fin price)
           \<and> total_price t = Fin (rnd (pct * price))
           \<and> tx_asset_id t = aid \<and> transaction_type t = m"
proof -
  from execute_trade_success[OF assms] obtain aid uid pct m price cur db1 where
    f: "assetId req = Some aid" "userId req = Some uid" "percentage req = Some pct"
       "mode req = Some m" "pricePerPercent req = Some price"
    and per: "persist_ownership flt db aid uid cur n = Inr db1"
    and ins: "insert_transaction (tx_fails flt) db1 (trade_transaction aid uid pct m price)
                = StoreOk db'"
    by blast
  let ?t = "trade_transaction aid uid pct m price"
  from insert_transaction_frame[OF ins] persist_ownership_frame[OF per]
  have tx: "transactions db' = transactions db @ [?t]"
    and m: "m = ''buy'' \<or> m = ''sell''"
    and fin: "finite_n (to_number (pct * price))"
    by (simp_all add: trade_transaction_def)
  from fin have tp: "to_number (pct * price) = Fin (rnd (pct * price))"
    by (simp add: to_number_def finite_n_def Let_def split: if_splits)
  have fields: "buyer_id ?t = (if m = ''buy'' then Some uid else None)"
    "seller_id ?t = (if m = ''sell'' then Some uid else None)"
    "percent_traded ?t = pct" "price_per_percent ?t = price"
    "total_price ?t = times_n (Fin pct) (Fin price)"
    "total_price ?t = Fin (rnd (pct * price))"
    "tx_asset_id ?t = aid" "transaction_type ?t = m"
    by (simp_all add: trade_transaction_def tp)
  from m have one: "(buyer_id ?t = None) \<noteq> (seller_id ?t = None)"
    by (auto simp: trade_transaction_def)
  show ?thesis
  proof (intro exI conjI)
    show "assetId req = Some aid" "userId req = Some uid" "percentage req = Some pct"
      "mode req = Some m" "pricePerPercent req = Some price"
      by (fact f)+
    show "transactions db' = transactions db @ [?t]" by (fact tx)
    show "m = ''buy'' \<or> m = ''sell''" by (fact m)
    show "(buyer_id ?t = None) \<noteq> (seller_id ?t = None)" by (fact one)
  qed (fact fields)+
qed

theorem successful_trade_transaction_witness:
  "execute_trade no_faults market (buy_request 7 1 (30, 150))
     = (market\<lparr>user_assets := [\<lparr>ua_user_id = 7, ua_asset_id = 1, ownership_percent = 30\<rparr>],
               transactions := [\<lparr>tx_asset_id = 1, buyer_id = Some 7, seller_id = None,
                  percent_traded = 30, price_per_percent = 150, total_price = Fin 4500,
                  transaction_type = ''buy''\<rparr>]\<rparr>,
        (200, Success 30))
   \<and> (\<exists>aid uid pct m price t.
         assetId (buy_request 7 1 (30, 150)) = Some aid
         \<and> userId (buy_request 7 1 (30, 150)) = Some uid
         \<and> percentage (buy_request 7 1 (30, 150)) = Some pct
         \<and> mode (buy_request 7 1 (30, 150)) = Some m
         \<and> pricePerPercent (buy_request 7 1 (30, 150)) = Some price
         \<and> [\<lparr>tx_asset_id = 1, buyer_id = Some 7, seller_id = None,
              percent_traded = 30, price_per_percent = 150, total_price = Fin 4500,
              transaction_type = ''buy''\<rparr>] = transactions market @ [t]
         \<and> (m = ''buy'' \<or> m = ''sell'')
         \<and> buyer_id t = (if m = ''buy'' then Some uid else None)
         \<and> seller_id t = (if m = ''sell'' then Some uid else None)
         \<and> (buyer_id t = None) \<noteq> (seller_id t = None)
         \<and> percent_traded t = pct \<and> price_per_percent t = price
         \<and> total_price t = times_n (Fin pct) (Fin price)
         \<and> total_price t = Fin (rnd (pct * price))
         \<and> tx_asset_id t = aid \<and> transaction_type t = m)"
proof -
  have run: "execute_trade no_faults market (buy_request 7 1 (30, 150))
     = (market\<lparr>user_assets := [\<lparr>ua_user_id = 7, ua_asset_id = 1, ownership_percent = 30\<rparr>],
               transactions := [\<lparr>tx_asset_id = 1, buyer_id = Some 7, seller_id = None,
                  percent_traded = 30, price_per_percent = 150, total_price = Fin 4500,
                  transaction_type = ''buy''\<rparr>]\<rparr>,
        (200, Success 30))"
    by (simp add: handler_defs store_defs buy_request_def market_def no_faults_def
          to_number_small finite_n_def)
  from successful_trade_transaction[OF run] run show ?thesis by simp
qed

lemma trade_errors_mem:
  "''Missing required fields'' \<in> set trade_errors"
  "''Invalid percentage'' \<in> set trade_errors"
  "''Failed to fetch current ownership'' \<in> set trade_errors"
  "''Cannot own more than 100% of an asset'' \<in> set trade_errors"
  "''Insufficient ownership to sell'' \<in> set trade_errors"
  "''Failed to update ownership'' \<in> set trade_errors"
  "''Failed to create ownership'' \<in> set trade_errors"
  "''Failed to record transaction'' \<in> set trade_errors"
  unfolding trade_errors_def by (simp_all only: list.set insert_iff refl simp_thms)

lemma rejected_unchanged:
  assumes "caught db msg = (db', (st, body))" and "msg \<in> set trade_errors"
  shows "st = 400 \<and> (\<exists>msg. body = Error msg \<and> msg \<in> set trade_errors
            \<and> (msg \<noteq> ''Failed to record transaction'' \<longrightarrow> db' = db))
          \<and> transactions db' = transactions db"
proof -
  from assms(1) have "db' = db" "st = 400" "body = Error msg" by (simp_all add: caught_def)
  with assms(2) show ?thesis by blast
qed

lemma caught_eq: "(caught db msg = (db', (st, body))) = (db' = db \<and> st = 400 \<and> body = Error msg)"
  by (auto simp: caught_def)

lemma record_transaction_cases:
  assumes "record_transaction flt db1 aid uid pct m price n = (db', (st, body))"
  shows "(st = 200 \<and> body = Success n \<and> \<not> tx_fails flt
            \<and> db' = db1\<lparr>transactions := transactions db1 @ [trade_transaction aid uid pct m price]\<rparr>)
         \<or> (st = 400 \<and> body = Error ''Failed to record transaction'' \<and> db' = db1)"
  using assms
  by (cases "insert_transaction (tx_fails flt) db1 (trade_transaction aid uid pct m price)")
     (auto simp: record_transaction_def caught_def dest: insert_transaction_frame)

lemma persist_ownership_error:
  "persist_ownership flt db aid uid cur n = Inl msg \<Longrightarrow>
     msg = ''Failed to update ownership'' \<or> msg = ''Failed to create ownership''"
  by (auto simp: persist_ownership_def split: if_splits store_result.splits)

lemma settle_cases:
  assumes "settle flt db aid uid pct m price cur n = (db', (st, body))"
  shows "(st = 200 \<and> body = Success n \<and> \<not> write_fails flt \<and> \<not> tx_fails flt)
         \<or> (st = 400 \<and> db' = db
              \<and> (body = Error ''Failed to update ownership''
                  \<or> body = Error ''Failed to create ownership''))
         \<or> (st = 400 \<and> body = Error ''Failed to record transaction''
              \<and> persist_ownership flt db aid uid cur n = Inr db')"
proof (cases "persist_ownership flt db aid uid cur n")
  case (Inl msg)
  with assms persist_ownership_error[OF Inl] show ?thesis
    by (auto simp: settle_def caught_def)
next
  case (Inr db1)
  with assms have "record_transaction flt db1 aid uid pct m price n = (db', (st, body))"
    by (simp add: settle_def)
  from record_transaction_cases[OF this] persist_ownership_frame[OF Inr] Inr
  show ?thesis by auto
qed

lemma execute_trade_cases:
  assumes "execute_trade flt db req = (db', (st, body))"
  shows "(st = 200 \<and> (\<exists>n. body = Success n) \<and> \<not> missing_fields req
            \<and> \<not> fetch_fails flt \<and> \<not> write_fails flt \<and> \<not> tx_fails flt)
         \<or> (st = 400 \<and> (\<exists>msg. body = Error msg \<and> msg \<in> set trade_errors
                \<and> (msg \<noteq> ''Failed to record transaction'' \<longrightarrow> db' = db))
              \<and> transactions db' = transactions db)"
proof (cases "missing_fields req")
  case True
  with assms have "caught db ''Missing required fields'' = (db', (st, body))"
    by (simp add: execute_trade_def)
  from rejected_unchanged[OF this trade_errors_mem(1)] show ?thesis by blast
next
  case nm: False
  define aid uid pct m price where "aid = the (assetId req)" and "uid = the (userId req)"
    and "pct = the (percentage req)" and "m = the (mode req)"
    and "price = the (pricePerPercent req)"
  show ?thesis
  proof (cases "pct \<le> 0 \<or> pct > 100")
    case True
    with assms nm have "caught db ''Invalid percentage'' = (db', (st, body))"
      unfolding execute_trade_def Let_def pct_def by simp
    from rejected_unchanged[OF this trade_errors_mem(2)] show ?thesis by blast
  next
    case rng: False
    show ?thesis
    proof (cases "select_ownership (fetch_fails flt) db uid aid")
      case StoreError
      with assms nm rng
      have "caught db ''Failed to fetch current ownership'' = (db', (st, body))"
        unfolding execute_trade_def Let_def pct_def uid_def aid_def by simp
      from rejected_unchanged[OF this trade_errors_mem(3)] show ?thesis by blast
    next
      case (StoreOk cur)
      then have nf: "\<not> fetch_fails flt"
        by (auto simp: select_ownership_def split: if_splits)
      define cp where "cp = (case cur of Some r \<Rightarrow> rnd (ownership_percent r) | None \<Rightarrow> 0)"
      have unf: "execute_trade flt db req =
          (if m = ''buy'' then
             (if rnd (cp + pct) > 100 then caught db ''Cannot own more than 100% of an asset''
              else settle flt db aid uid pct m price cur (rnd (cp + pct)))
           else if cp < pct then caught db ''Insufficient ownership to sell''
           else settle flt db aid uid pct m price cur (rnd (cp - pct)))"
        using nm rng StoreOk
        unfolding execute_trade_def Let_def aid_def uid_def pct_def m_def price_def cp_def
        by simp
      have settled: ?thesis if go: "settle flt db aid uid pct m price cur n = (db', (st, body))"
        for n
        using settle_cases[OF go]
      proof (elim disjE conjE)
        assume "st = 200" "body = Success n" "\<not> write_fails flt" "\<not> tx_fails flt"
        with nm nf show ?thesis by simp
      next
        assume "st = 400" "db' = db" "body = Error ''Failed to update ownership''"
        with trade_errors_mem(6) show ?thesis by blast
      next
        assume "st = 400" "db' = db" "body = Error ''Failed to create ownership''"
        with trade_errors_mem(7) show ?thesis by blast
      next
        assume a: "st = 400" "body = Error ''Failed to record transaction''"
          "persist_ownership flt db aid uid cur n = Inr db'"
        from persist_ownership_frame[OF a(3)] have "transactions db' = transactions db" by simp
        with a(1,2) trade_errors_mem(8) show ?thesis by blast
      qed
      consider (b1) "m = ''buy''" "rnd (cp + pct) > 100"
        | (b2) "m = ''buy''" "\<not> rnd (cp + pct) > 100"
        | (s1) "m \<noteq> ''buy''" "cp < pct" | (s2) "m \<noteq> ''buy''" "\<not> cp < pct"
        by blast
      then show ?thesis
      proof cases
        case b1
        with assms unf have "caught db ''Cannot own more than 100% of an asset'' = (db', (st, body))"
          by simp
        from rejected_unchanged[OF this trade_errors_mem(4)] show ?thesis by blast
      next
        case b2
        with assms unf
        have "settle flt db aid uid pct m price cur (rnd (cp + pct)) = (db', (st, body))"
          by simp
        then show ?thesis by (rule settled)
      next
        case s1
        with assms unf have "caught db ''Insufficient ownership to sell'' = (db', (st, body))"
          by simp
        from rejected_unchanged[OF this trade_errors_mem(5)] show ?thesis by blast
      next
        case s2
        with assms unf
        have "settle flt db aid uid pct m price cur (rnd (cp - pct)) = (db', (st, body))"
          by simp
        then show ?thesis by (rule settled)
      qed
    qed
  qed
qed

text \<open>
  Claim C4. Every run of the handler answers either with status 200, and then no field was
  missing and none of the three store calls failed, or with status 400 and one of the
  handler's error messages, and then no transaction was appended; unless the message is
  that of the transaction insert, the store is as it was. The sequence is not atomic: when
  user 7, who owns 50 percent of asset 1, sells 20 and the ownership update succeeds but
  the transaction insert fails, the handler answers with an error and the holding stays at
  30 with no transaction recorded.
\<close>

theorem trade_failure_not_atomic:
  "(\<forall>flt db req db' st body.
      execute_trade flt db req = (db', (st, body)) \<longrightarrow>
        (st = 200 \<and> (\<exists>n. body = Success n) \<and> \<not> missing_fields req
           \<and> \<not> fetch_fails flt \<and> \<not> write_fails flt \<and> \<not> tx_fails flt)
        \<or> (st = 400 \<and> (\<exists>msg. body = Error msg \<and> msg \<in> set trade_errors
               \<and> (msg \<noteq> ''Failed to record transaction'' \<longrightarrow> db' = db))
             \<and> transactions db' = transactions db))
   \<and> execute_trade \<lparr>fetch_fails = False, write_fails = False, tx_fails = True\<rparr> holder
        (sell_request 7 1 (20, 150))
       = (holder\<lparr>user_assets := [\<lparr>ua_user_id = 7, ua_asset_id = 1, ownership_percent = 30\<rparr>]\<rparr>,
          (400, Error ''Failed to record transaction''))"
proof (intro conjI allI impI)
  fix flt db req db' st body
  assume "execute_trade flt db req = (db', (st, body))"
  then show "(st = 200 \<and> (\<exists>n. body = Success n) \<and> \<not> missing_fields req
           \<and> \<not> fetch_fails flt \<and> \<not> write_fails flt \<and> \<not> tx_fails flt)
        \<or> (st = 400 \<and> (\<exists>msg. body = Error msg \<and> msg \<in> set trade_errors
               \<and> (msg \<noteq> ''Failed to record transaction'' \<longrightarrow> db' = db))
             \<and> transactions db' = transactions db)"
    by (rule execute_trade_cases)
next
  show "execute_trade \<lparr>fetch_fails = False, write_fails = False, tx_fails = True\<rparr> holder
        (sell_request 7 1 (20, 150))
       = (holder\<lparr>user_assets := [\<lparr>ua_user_id = 7, ua_asset_id = 1, ownership_percent = 30\<rparr>]\<rparr>,
          (400, Error ''Failed to record transaction''))"
    by (simp add: handler_defs store_defs sell_request_def holder_def)
qed

theorem trade_failure_not_atomic_witness:
  "execute_trade \<lparr>fetch_fails = False, write_fails = True, tx_fails = False\<rparr> holder
     (sell_request 7 1 (20, 150)) = (holder, (400, Error ''Failed to update ownership''))
   \<and> ''Failed to update ownership'' \<in> set trade_errors
   \<and> execute_trade \<lparr>fetch_fails = False, write_fails = False, tx_fails = True\<rparr> holder
        (sell_request 7 1 (20, 150))
       = (holder\<lparr>user_assets := [\<lparr>ua_user_id = 7, ua_asset_id = 1, ownership_percent = 30\<rparr>]\<rparr>,
          (400, Error ''Failed to record transaction''))"
proof -
  have run: "execute_trade \<lparr>fetch_fails = False, write_fails = True, tx_fails = False\<rparr> holder
     (sell_request 7 1 (20, 150)) = (holder, (400, Error ''Failed to update ownership''))"
    by (simp add: handler_defs store_defs sell_request_def holder_def)
  from trade_failure_not_atomic run trade_errors_mem(6) show ?thesis
    by blast
qed

text \<open>
  Claim C5 as stated fails. User 7 owns 50 percent of asset 1 and sends a request of mode
  \<^verbatim>\<open>hold\<close> for 20 percent. The request passes validation and takes the sell branch, which
  writes a holding of 30; the row for the transactions table, with the mode as its type and
  no buyer and no seller, is then refused by the table's
  \<^verbatim>\<open>CHECK (transaction_type IN ('buy', 'sell'))\<close>: no transaction is appended and the answer
  is the error of the transaction insert.
\<close>

theorem other_mode_transaction_counterexample:
  "execute_trade no_faults holder hold_request
     = (holder\<lparr>user_assets := [\<lparr>ua_user_id = 7, ua_asset_id = 1, ownership_percent = 30\<rparr>]\<rparr>,
        (400, Error ''Failed to record transaction''))
   \<and> transactions (fst (execute_trade no_faults holder hold_request)) = []"
  by (simp add: handler_defs store_defs hold_request_def holder_def no_faults_def)

lemma insert_transaction_other_mode:
  "m \<noteq> ''buy'' \<Longrightarrow> m \<noteq> ''sell'' \<Longrightarrow>
     insert_transaction f db (trade_transaction aid uid pct m price) = StoreError"
  by (simp add: insert_transaction_def trade_transaction_def)

text \<open>
  Claim C5, amended. The handler checks that the mode is present, not that it is buy or
  sell. A request with any other non-empty mode and otherwise valid fields is not rejected
  by validation and takes the sell branch: it is rejected when the holding is below the
  percentage, and otherwise the holding is decremented (a rounded difference) and written.
  The row the handler
  then sends to the transactions table carries the mode as its type, with buyer and seller
  both empty; the table refuses it, so no transaction is appended and the answer is the
  error of the transaction insert, while the decremented holding stays written.
\<close>

theorem other_mode_takes_sell_branch:
  assumes "assetId req = Some aid" "userId req = Some uid" "percentage req = Some pct"
    "mode req = Some m" "pricePerPercent req = Some price"
    and "m \<noteq> []" "m \<noteq> ''buy''" "m \<noteq> ''sell''" "price \<noteq> 0" "0 < pct" "pct \<le> 100"
    and "ownership_inv db" "\<not> fetch_fails flt"
  shows "\<not> missing_fields req
    \<and> (holding db uid aid < pct \<longrightarrow>
          execute_trade flt db req = (db, (400, Error ''Insufficient ownership to sell'')))
    \<and> (pct \<le> holding db uid aid \<and> write_fails flt \<longrightarrow>
          execute_trade flt db req = (db, (400, Error ''Failed to update ownership'')))
    \<and> (pct \<le> holding db uid aid \<and> \<not> write_fails flt \<longrightarrow>
          (\<exists>db1. execute_trade flt db req = (db1, (400, Error ''Failed to record transaction''))
                 \<and> holding db1 uid aid = rnd (holding db uid aid - pct)
                 \<and> transactions db1 = transactions db
                 \<and> insert_transaction (tx_fails flt) db1
                      \<lparr>tx_asset_id = aid, buyer_id = None, seller_id = None,
                       percent_traded = pct, price_per_percent = price,
                       total_price = times_n (Fin pct) (Fin price),
                       transaction_type = m\<rparr> = StoreError))"
proof (intro conjI impI)
  show "\<not> missing_fields req"
    using assms by (simp add: missing_fields_def)
next
  assume "holding db uid aid < pct"
  with assms show "execute_trade flt db req = (db, (400, Error ''Insufficient ownership to sell''))"
    by (intro sell_reject[where aid = aid and uid = uid and pct = pct and m = m
          and price = price]) simp_all
next
  let ?cur = "find (row_of uid aid) (user_assets db)"
  let ?n = "rnd (holding db uid aid - pct)"
  from assms(12) have di: "distinct (map key_of (user_assets db))" by (simp add: ownership_inv_def)
  note b = holding_bounds[OF assms(12), of uid aid]
  have row: "?cur \<noteq> None" if "pct \<le> holding db uid aid"
    using that assms(10) by (intro holding_row) simp
  have unf: "execute_trade flt db req = settle flt db aid uid pct m price ?cur ?n"
    if "pct \<le> holding db uid aid"
    using that assms(7)
    by (simp add: execute_trade_valid[OF assms(1-6,9-11) di assms(13)])
  {
    assume a: "pct \<le> holding db uid aid \<and> write_fails flt"
    then have "?cur \<noteq> None" by (simp add: row)
    with a have "persist_ownership flt db aid uid ?cur ?n = Inl ''Failed to update ownership''"
      by (simp add: persist_ownership_def delete_ownership_def update_ownership_def)
    with a unf show "execute_trade flt db req = (db, (400, Error ''Failed to update ownership''))"
      by (simp add: settle_def caught_def)
  }
  {
    assume a: "pct \<le> holding db uid aid \<and> \<not> write_fails flt"
    then have n: "0 \<le> ?n" "?n \<le> 100"
      using b assms(10) by (auto intro!: rnd_nonneg rnd_le_100)
    from a have "?cur \<noteq> None" by (simp add: row)
    with persist_ownership_ok[OF assms(12) _ n, of flt uid aid] a obtain db1 where
      per: "persist_ownership flt db aid uid ?cur ?n = Inr db1"
      by auto
    let ?t = "trade_transaction aid uid pct m price"
    from assms(7,8) have rej: "insert_transaction (tx_fails flt) db1 ?t = StoreError"
      by (rule insert_transaction_other_mode)
    with per unf a
    have "execute_trade flt db req = (db1, (400, Error ''Failed to record transaction''))"
      by (simp add: settle_def record_transaction_def caught_def)
    moreover have "holding db1 uid aid = ?n" using persist_ownership_holding[OF per] by simp
    moreover have "transactions db1 = transactions db"
      using persist_ownership_frame[OF per] by simp
    moreover have "?t = \<lparr>tx_asset_id = aid, buyer_id = None, seller_id = None,
                       percent_traded = pct, price_per_percent = price,
                       total_price = times_n (Fin pct) (Fin price), transaction_type = m\<rparr>"
      using assms(7,8) by (simp add: trade_transaction_def)
    ultimately show "\<exists>db1. execute_trade flt db req
                   = (db1, (400, Error ''Failed to record transaction''))
                 \<and> holding db1 uid aid = rnd (holding db uid aid - pct)
                 \<and> transactions db1 = transactions db
                 \<and> insert_transaction (tx_fails flt) db1
                      \<lparr>tx_asset_id = aid, buyer_id = None, seller_id = None,
                       percent_traded = pct, price_per_percent = price,
                       total_price = times_n (Fin pct) (Fin price),
                       transaction_type = m\<rparr> = StoreError"
      using rej by auto
  }
qed

theorem other_mode_takes_sell_branch_witness:
  "\<not> missing_fields hold_request
   \<and> (\<exists>db1. execute_trade no_faults holder hold_request
              = (db1, (400, Error ''Failed to record transaction''))
            \<and> holding db1 7 1 = 30
            \<and> transactions db1 = []
            \<and> insert_transaction False db1
                 \<lparr>tx_asset_id = 1, buyer_id = None, seller_id = None,
                  percent_traded = 20, price_per_percent = 150,
                  total_price = Fin 3000, transaction_type = ''hold''\<rparr> = StoreError)"
proof -
  have inv: "ownership_inv holder"
    by (simp add: ownership_inv_def holder_def percent_check_def key_of_def)
  have h: "holding holder 7 1 = 50" by (simp add: holding_def holder_def row_of_def)
  have f: "assetId hold_request = Some 1" "userId hold_request = Some 7"
    "percentage hold_request = Some 20" "mode hold_request = Some ''hold''"
    "pricePerPercent hold_request = Some 150"
    by (simp_all add: hold_request_def)
  have m: "''hold'' \<noteq> []" "''hold'' \<noteq> ''buy''" "''hold'' \<noteq> ''sell''" by simp_all
  have p: "(150::real) \<noteq> 0" "(0::real) < 20" "(20::real) \<le> 100" by simp_all
  have nf: "\<not> fetch_fails no_faults" by (simp add: no_faults_def)
  from other_mode_takes_sell_branch[OF f m p inv nf] h
  show ?thesis by (simp add: no_faults_def holder_def to_number_small)
qed

section \<open>Properties of the load curve analysis\<close>

lemma plus_n_NaN [simp]: "plus_n x NaN = NaN"
  by (cases x) simp_all

lemma rnd_half [simp]: "rnd (1 / 2) = 1 / 2"
  using rnd_dyadic[of 1 "- 1"] by simp

lemma rnd_quarter [simp]: "rnd (1 / 4) = 1 / 4"
  using rnd_dyadic[of 1 "- 2"] by simp

lemma rnd_eighths [simp]: "rnd (1 / 8) = 1 / 8" "rnd (3 / 8) = 3 / 8"
  using rnd_dyadic[of 1 "- 3"] rnd_dyadic[of 3 "- 3"] by simp_all

lemma rnd_halves [simp]: "rnd (25 / 2) = 25 / 2" "rnd (75 / 2) = 75 / 2"
  using rnd_dyadic[of 25 "- 1"] rnd_dyadic[of 75 "- 1"] by simp_all

lemma less_n_irrefl [simp]: "\<not> less_n x x"
  by (cases x) simp_all

lemma less_n_trans: "less_n x y \<Longrightarrow> less_n y z \<Longrightarrow> less_n x z"
  by (cases x; cases y; cases z) simp_all

lemma less_n_total: "x \<noteq> NaN \<Longrightarrow> y \<noteq> NaN \<Longrightarrow> less_n x y \<or> x = y \<or> less_n y x"
  by (cases x; cases y) auto

lemma less_n_asym: "less_n x y \<Longrightarrow> \<not> less_n y x"
  by (cases x; cases y) simp_all

lemma less_n_NaN [simp]: "\<not> less_n x NaN" "\<not> less_n NaN x"
  by (cases x; simp)+

lemma ge_n_refl: "x \<noteq> NaN \<Longrightarrow> ge_n x x"
  by (simp add: ge_n_def)

lemma ge_n_antisym: "ge_n x y \<Longrightarrow> ge_n y x \<Longrightarrow> x = y"
  using less_n_total[of x y] by (auto simp: ge_n_def)

lemma ge_n_trans: "ge_n x y \<Longrightarrow> ge_n y z \<Longrightarrow> ge_n x z"
  using less_n_total[of x y] less_n_total[of y z] less_n_trans[of x y z] less_n_trans[of x z y]
    less_n_trans[of y x z]
  by (auto simp: ge_n_def)

lemma ge_n_NegInf: "x \<noteq> NaN \<Longrightarrow> ge_n x NegInf"
  by (cases x) (simp_all add: ge_n_def)

lemma max2_NaN: "(max2 x y = NaN) = (x = NaN \<or> y = NaN)"
  by (auto simp: max2_def)

lemma max2_ge: "x \<noteq> NaN \<Longrightarrow> y \<noteq> NaN \<Longrightarrow>
    ge_n (max2 x y) x \<and> ge_n (max2 x y) y \<and> (max2 x y = x \<or> max2 x y = y)"
  using less_n_asym[of x y] by (auto simp: max2_def ge_n_def)

lemma foldl_max2_NaN: "(foldl max2 z xs = NaN) = (z = NaN \<or> NaN \<in> set xs)"
  by (induction xs arbitrary: z) (auto simp: max2_NaN)

lemma foldl_max2_ge:
  "z \<noteq> NaN \<Longrightarrow> NaN \<notin> set xs \<Longrightarrow>
     (\<forall>x\<in>set (z # xs). ge_n (foldl max2 z xs) x) \<and> foldl max2 z xs \<in> set (z # xs)"
proof (induction xs arbitrary: z)
  case Nil
  then show ?case by (simp add: ge_n_refl)
next
  case (Cons y ys)
  then have y: "y \<noteq> NaN" and ys: "NaN \<notin> set ys" by auto
  from Cons.prems(1) y have m: "max2 z y \<noteq> NaN" by (simp add: max2_NaN)
  note ih = Cons.IH[OF m ys]
  note mg = max2_ge[OF Cons.prems(1) y]
  from ih have top: "ge_n (foldl max2 (max2 z y) ys) (max2 z y)" by simp
  from top mg have "ge_n (foldl max2 (max2 z y) ys) z" "ge_n (foldl max2 (max2 z y) ys) y"
    by (blast intro: ge_n_trans)+
  with ih mg show ?case by auto
qed

lemma strict_eq_Math_max:
  assumes "a \<in> set xs"
  shows "strict_eq a (Math_max xs) = (\<forall>x\<in>set xs. ge_n a x)"
proof
  assume "strict_eq a (Math_max xs)"
  then have a: "a \<noteq> NaN" and eq: "a = foldl max2 NegInf xs"
    unfolding strict_eq_def Math_max_def by blast+
  from a eq have "NaN \<notin> set xs" using foldl_max2_NaN[of NegInf xs] by auto
  from foldl_max2_ge[OF _ this, of NegInf] eq show "\<forall>x\<in>set xs. ge_n a x" by simp
next
  assume all: "\<forall>x\<in>set xs. ge_n a x"
  with assms have a: "a \<noteq> NaN" by (auto simp: ge_n_def)
  from all have nn: "NaN \<notin> set xs" by (auto simp: ge_n_def)
  let ?M = "foldl max2 NegInf xs"
  from foldl_max2_ge[OF _ nn, of NegInf] assms
  have Ma: "ge_n ?M a" and Min: "?M = NegInf \<or> ?M \<in> set xs" by auto
  from Min all a have "ge_n a ?M" by (auto simp: ge_n_NegInf)
  with Ma have "a = ?M" by (rule ge_n_antisym[rotated])
  with a show "strict_eq a (Math_max xs)" by (simp add: strict_eq_def Math_max_def)
qed

lemma less_n_not_ge: "less_n x y \<Longrightarrow> \<not> ge_n x y"
  by (simp add: ge_n_def)

lemmas number_defs = minus_n_def greater_n_def ge_n_def strict_eq_def max2_def Math_max_def

lemmas analyzer_defs = analyzeLoadCurve_def sum_values_def fill_slots_def add_slot_def
  percentages_def classify_def Let_def to_number_small

text \<open>
  Claim C6 as stated fails: a tie for the maximal bucket does produce a driven label. Two
  samples of value 1, one at 13h and one at 19h, give afternoon and evening 50 percent each,
  and the pattern is daytime-driven.
\<close>

theorem tie_is_driven_counterexample:
  "analyzeLoadCurve tie_series =
     Inr \<lparr>totalConsumption = Fin 2, avgDailyConsumption = Fin 8, peakLoad = Fin 1,
          timeOfDay = \<lparr>night = Fin 0, morning = Fin 0, afternoon = Fin 50, evening = Fin 50\<rparr>,
          pattern = ''daytime-driven'', dataPoints = 2\<rparr>"
  by (simp add: tie_series_def sample_def analyzer_defs number_defs)

lemma classify_order:
  "classify p =
     (if ge_n (afternoon p) (night p) \<and> ge_n (afternoon p) (morning p)
         \<and> ge_n (afternoon p) (evening p) \<and> greater_n (afternoon p) (Fin 35)
      then ''daytime-driven''
      else if ge_n (evening p) (night p) \<and> ge_n (evening p) (morning p)
         \<and> ge_n (evening p) (afternoon p) \<and> greater_n (evening p) (Fin 35)
      then ''evening-driven''
      else if ge_n (night p) (morning p) \<and> ge_n (night p) (afternoon p)
         \<and> ge_n (night p) (evening p) \<and> greater_n (night p) (Fin 30)
      then ''night-driven''
      else ''mixed'')"
proof -
  let ?xs = "[night p, morning p, afternoon p, evening p]"
  have a: "strict_eq (afternoon p) (Math_max ?xs)
      = (ge_n (afternoon p) (night p) \<and> ge_n (afternoon p) (morning p)
         \<and> ge_n (afternoon p) (evening p))"
    by (subst strict_eq_Math_max) (auto simp: ge_n_def)
  have e: "strict_eq (evening p) (Math_max ?xs)
      = (ge_n (evening p) (night p) \<and> ge_n (evening p) (morning p)
         \<and> ge_n (evening p) (afternoon p))"
    by (subst strict_eq_Math_max) (auto simp: ge_n_def)
  have n: "strict_eq (night p) (Math_max ?xs)
      = (ge_n (night p) (morning p) \<and> ge_n (night p) (afternoon p)
         \<and> ge_n (night p) (evening p))"
    by (subst strict_eq_Math_max) (auto simp: ge_n_def)
  show ?thesis
    unfolding classify_def Let_def a e n by (simp only: conj_assoc)
qed

lemma analyzeLoadCurve_Inr:
  assumes "analyzeLoadCurve data = Inr r"
  shows "data \<noteq> []"
    and "totalConsumption r = sum_values data"
    and "avgDailyConsumption r = divide_n (sum_values data)
           (divide_n (minus_n (getTime (timestamp (last data))) (getTime (timestamp (hd data))))
              (Fin 86400000))"
    and "peakLoad r = Math_max (map val data)"
    and "timeOfDay r = percentages (fill_slots data) (sum_values data)"
    and "pattern r = classify (timeOfDay r)"
    and "dataPoints r = length data"
proof -
  from assms show ne: "data \<noteq> []"
    by (auto simp: analyzeLoadCurve_def)
  then have "data ! 0 = hd data" "data ! (length data - 1) = last data"
    by (simp_all add: hd_conv_nth last_conv_nth)
  with assms ne have r: "r = \<lparr>totalConsumption = sum_values data,
      avgDailyConsumption = divide_n (sum_values data)
           (divide_n (minus_n (getTime (timestamp (last data))) (getTime (timestamp (hd data))))
              (Fin 86400000)),
      peakLoad = Math_max (map val data),
      timeOfDay = percentages (fill_slots data) (sum_values data),
      pattern = classify (percentages (fill_slots data) (sum_values data)),
      dataPoints = length data\<rparr>"
    by (simp add: analyzeLoadCurve_def Let_def)
  show "totalConsumption r = sum_values data"
    "avgDailyConsumption r = divide_n (sum_values data)
           (divide_n (minus_n (getTime (timestamp (last data))) (getTime (timestamp (hd data))))
              (Fin 86400000))"
    "peakLoad r = Math_max (map val data)"
    "timeOfDay r = percentages (fill_slots data) (sum_values data)"
    "pattern r = classify (timeOfDay r)"
    "dataPoints r = length data"
    by (simp_all add: r)
qed

text \<open>
  Claim C6, amended. With \<open>n\<close>, \<open>m\<close>, \<open>a\<close>, \<open>e\<close> the night, morning, afternoon and evening
  shares: the label is daytime-driven if the afternoon share is at least each other share
  and exceeds 35; otherwise evening-driven if the evening share is at least each other share
  and exceeds 35; otherwise night-driven if the night share is at least each other share and
  exceeds 30; otherwise mixed. A bucket that ties for the maximum counts as maximal, in the
  order afternoon, evening, night. A morning share strictly above the three others gives
  mixed, and so does any share that is \<^verbatim>\<open>NaN\<close>.
\<close>

theorem pattern_classification:
  assumes "analyzeLoadCurve data = Inr r"
    and "n = night (timeOfDay r)" "m = morning (timeOfDay r)"
    and "a = afternoon (timeOfDay r)" "e = evening (timeOfDay r)"
  shows "pattern r =
     (if ge_n a n \<and> ge_n a m \<and> ge_n a e \<and> greater_n a (Fin 35) then ''daytime-driven''
      else if ge_n e n \<and> ge_n e m \<and> ge_n e a \<and> greater_n e (Fin 35) then ''evening-driven''
      else if ge_n n m \<and> ge_n n a \<and> ge_n n e \<and> greater_n n (Fin 30) then ''night-driven''
      else ''mixed'')
    \<and> (less_n n m \<and> less_n a m \<and> less_n e m \<longrightarrow> pattern r = ''mixed'')
    \<and> (n = NaN \<or> m = NaN \<or> a = NaN \<or> e = NaN \<longrightarrow> pattern r = ''mixed'')"
proof -
  have p: "pattern r = classify (timeOfDay r)"
    using assms(1) by (rule analyzeLoadCurve_Inr)
  have main: "pattern r =
     (if ge_n a n \<and> ge_n a m \<and> ge_n a e \<and> greater_n a (Fin 35) then ''daytime-driven''
      else if ge_n e n \<and> ge_n e m \<and> ge_n e a \<and> greater_n e (Fin 35) then ''evening-driven''
      else if ge_n n m \<and> ge_n n a \<and> ge_n n e \<and> greater_n n (Fin 30) then ''night-driven''
      else ''mixed'')"
    unfolding p assms(2-5) by (rule classify_order)
  have "pattern r = ''mixed''" if "less_n n m \<and> less_n a m \<and> less_n e m"
    using that less_n_not_ge[of a m] less_n_not_ge[of e m] less_n_not_ge[of n m]
    unfolding main by simp
  moreover have "pattern r = ''mixed''" if "n = NaN \<or> m = NaN \<or> a = NaN \<or> e = NaN"
    using that unfolding main by (auto simp: ge_n_def)
  ultimately show ?thesis using main by blast
qed

theorem pattern_classification_witness:
  "pattern \<lparr>totalConsumption = Fin 2, avgDailyConsumption = Fin 8, peakLoad = Fin 1,
          timeOfDay = \<lparr>night = Fin 0, morning = Fin 0, afternoon = Fin 50, evening = Fin 50\<rparr>,
          pattern = ''daytime-driven'', dataPoints = 2\<rparr> = ''daytime-driven''
   \<and> ge_n (Fin 50) (Fin 50) \<and> greater_n (Fin 50) (Fin 35)"
proof -
  have run: "analyzeLoadCurve tie_series =
     Inr \<lparr>totalConsumption = Fin 2, avgDailyConsumption = Fin 8, peakLoad = Fin 1,
          timeOfDay = \<lparr>night = Fin 0, morning = Fin 0, afternoon = Fin 50, evening = Fin 50\<rparr>,
          pattern = ''daytime-driven'', dataPoints = 2\<rparr>"
    by (simp add: tie_series_def sample_def analyzer_defs number_defs)
  from pattern_classification[OF run, of "Fin 0" "Fin 0" "Fin 50" "Fin 50"]
  show ?thesis by (simp add: ge_n_def greater_n_def)
qed


































lemmas parse_defs = parseFloat_def unsigned_literal_def exponent_part_def digits_val_def
  digit_val_def is_digit_def is_space_def trim_def parseCSV_def





lemma divide_n_zero_not_Fin: "divide_n x (Fin 0) = NaN \<or> divide_n x (Fin 0) = PosInf
    \<or> divide_n x (Fin 0) = NegInf"
  by (cases x) auto

lemma minus_n_self: "minus_n x x = Fin 0 \<or> minus_n x x = NaN"
  by (cases x) (simp_all add: minus_n_def)

lemma analyzeLoadCurve_nonempty:
  assumes "data \<noteq> []"
  shows "\<exists>r. analyzeLoadCurve data = Inr r"
  using assms by (simp add: analyzeLoadCurve_def Let_def)

lemma serve_analysis_completes:
  assumes "content \<noteq> []" and "analyzeLoadCurve (parseCSV newDate content) = Inr r"
    and "gateway r = GatewayContent (Some reply)" and "reply \<noteq> []"
    and "match_braces reply = Some j" and "JSON_parse j = Inr v"
  shows "serve_analysis newDate JSON_parse True gateway (Some content) = (200, Inr (v, r))"
  using assms by (simp add: serve_analysis_def extract_result_def)

lemma parseCSV_one_row_csv:
  "parseCSV utc_date one_row_csv
     = [\<lparr>timestamp = \<lparr>getTime = Fin 1704067200000, getHours = Fin 0\<rparr>, val = Fin 5\<rparr>]"
proof -
  have "trim one_row_csv = one_row_csv"
    by (simp add: trim_def one_row_csv_def is_space_def)
  moreover have "split_js (CHR 0x0A) one_row_csv = [''timestamp,value'', ''2024-01-01T00:00:00,5'']"
    by (simp add: one_row_csv_def)
  moreover have "split_js CHR '','' ''2024-01-01T00:00:00,5'' = [''2024-01-01T00:00:00'', ''5'']"
    by simp
  moreover have "parseFloat ''5'' = Fin 5"
    by (simp add: parse_defs to_number_small)
  ultimately show ?thesis by (simp add: parseCSV_def utc_date_def)
qed

text \<open>
  Claim C9. For every non-empty series the analysis returns a result, never an error, and the
  average daily consumption is the total divided by the day span between the last and the
  first timestamp. Nothing guards the division: when the two timestamps coincide, as they do
  for a single row, the average is \<^verbatim>\<open>NaN\<close> or an infinity, and the analysis still returns.
  The request then completes like any other: when the file parses to this series and the
  gateway answers with a reply whose match parses, the response has status 200 and carries
  this analysis.
\<close>

theorem zero_span_average_unguarded:
  assumes "data \<noteq> []"
  shows "\<exists>r. analyzeLoadCurve data = Inr r
           \<and> avgDailyConsumption r =
               divide_n (totalConsumption r)
                 (divide_n (minus_n (getTime (timestamp (last data)))
                                    (getTime (timestamp (hd data))))
                    (Fin (1000 * 60 * 60 * 24)))
           \<and> (getTime (timestamp (last data)) = getTime (timestamp (hd data)) \<longrightarrow>
                 avgDailyConsumption r = NaN \<or> avgDailyConsumption r = PosInf
                 \<or> avgDailyConsumption r = NegInf)
           \<and> (length data = 1 \<longrightarrow>
                 avgDailyConsumption r = NaN \<or> avgDailyConsumption r = PosInf
                 \<or> avgDailyConsumption r = NegInf)
           \<and> (\<forall>newDate (JSON_parse :: string \<Rightarrow> string + 'j) gateway content reply j v.
                 content \<noteq> [] \<and> parseCSV newDate content = data
                 \<and> gateway r = GatewayContent (Some reply) \<and> reply \<noteq> []
                 \<and> match_braces reply = Some j \<and> JSON_parse j = Inr v \<longrightarrow>
                 serve_analysis newDate JSON_parse True gateway (Some content)
                   = (200, Inr (v, r)))"
proof -
  from analyzeLoadCurve_nonempty[OF assms] obtain r where run: "analyzeLoadCurve data = Inr r"
    by blast
  note f = analyzeLoadCurve_Inr[OF run]
  let ?span = "divide_n (minus_n (getTime (timestamp (last data)))
                                    (getTime (timestamp (hd data)))) (Fin 86400000)"
  have avg: "avgDailyConsumption r = divide_n (totalConsumption r) ?span"
    using f(2,3) by simp
  have zero: "avgDailyConsumption r = NaN \<or> avgDailyConsumption r = PosInf
                 \<or> avgDailyConsumption r = NegInf"
    if eq: "getTime (timestamp (last data)) = getTime (timestamp (hd data))"
  proof -
    from minus_n_self[of "getTime (timestamp (hd data))"] eq
    have "?span = Fin 0 \<or> ?span = NaN" by auto
    then show ?thesis
    proof
      assume "?span = Fin 0"
      with avg divide_n_zero_not_Fin[of "totalConsumption r"] show ?thesis by simp
    next
      assume "?span = NaN"
      with avg have "avgDailyConsumption r = NaN" by (cases "totalConsumption r") simp_all
      then show ?thesis by simp
    qed
  qed
  have one: "getTime (timestamp (last data)) = getTime (timestamp (hd data))"
    if "length data = 1"
  proof -
    from that obtain d where "data = [d]" by (cases data) auto
    then show ?thesis by simp
  qed
  have serve: "serve_analysis newDate JSON_parse True gateway (Some content) = (200, Inr (v, r))"
    if "content \<noteq> [] \<and> parseCSV newDate content = data
          \<and> gateway r = GatewayContent (Some reply) \<and> reply \<noteq> []
          \<and> match_braces reply = Some j \<and> JSON_parse j = Inr v"
    for newDate and JSON_parse :: "string \<Rightarrow> string + 'j" and gateway content reply j v
    using that run serve_analysis_completes[of content newDate r gateway reply j JSON_parse v]
    by simp
  from run avg zero one serve show ?thesis
    by (intro exI[of _ r] conjI allI impI) simp_all
qed

theorem zero_span_average_unguarded_witness:
  "parseCSV utc_date one_row_csv
     = [\<lparr>timestamp = \<lparr>getTime = Fin 1704067200000, getHours = Fin 0\<rparr>, val = Fin 5\<rparr>]
   \<and> serve_analysis utc_date toy_parse True empty_object_gateway (Some one_row_csv)
       = (200, Inr ((),
            \<lparr>totalConsumption = Fin 5, avgDailyConsumption = PosInf, peakLoad = Fin 5,
             timeOfDay = \<lparr>night = Fin 100, morning = Fin 0, afternoon = Fin 0, evening = Fin 0\<rparr>,
             pattern = ''night-driven'', dataPoints = 1\<rparr>))"
proof -
  let ?data = "[\<lparr>timestamp = \<lparr>getTime = Fin 1704067200000, getHours = Fin 0\<rparr>, val = Fin 5\<rparr>]"
  let ?r = "\<lparr>totalConsumption = Fin 5, avgDailyConsumption = PosInf, peakLoad = Fin 5,
             timeOfDay = \<lparr>night = Fin 100, morning = Fin 0, afternoon = Fin 0, evening = Fin 0\<rparr>,
             pattern = ''night-driven'', dataPoints = 1\<rparr>"
  have ne: "?data \<noteq> []" by simp
  have run: "analyzeLoadCurve ?data = Inr ?r"
    by (simp add: analyzer_defs number_defs)
  from zero_span_average_unguarded[OF ne, where ?'j = unit] run
  have "\<forall>newDate JSON_parse gateway content reply j (v::unit).
                 content \<noteq> [] \<and> parseCSV newDate content = ?data
                 \<and> gateway ?r = GatewayContent (Some reply) \<and> reply \<noteq> []
                 \<and> match_braces reply = Some j \<and> JSON_parse j = Inr v \<longrightarrow>
                 serve_analysis newDate JSON_parse True gateway (Some content)
                   = (200, Inr (v, ?r))"
    by simp
  then have "one_row_csv \<noteq> [] \<and> parseCSV utc_date one_row_csv = ?data
        \<and> empty_object_gateway ?r = GatewayContent (Some ''{}'') \<and> ''{}'' \<noteq> []
        \<and> match_braces ''{}'' = Some ''{}'' \<and> toy_parse ''{}'' = Inr () \<longrightarrow>
      serve_analysis utc_date toy_parse True empty_object_gateway (Some one_row_csv)
        = (200, Inr ((), ?r))"
    by blast
  moreover have "one_row_csv \<noteq> []" by (simp add: one_row_csv_def)
  moreover have "match_braces ''{}'' = Some ''{}''" by (simp add: match_braces_def)
  ultimately show ?thesis
    by (simp add: parseCSV_one_row_csv empty_object_gateway_def toy_parse_def)
qed

lemma set_takeWhile_neq: "c \<notin> set (takeWhile (\<lambda>x. x \<noteq> c) xs)"
  by (auto dest: set_takeWhileD)

lemma dropWhile_neq_Cons:
  assumes "dropWhile (\<lambda>x. x \<noteq> c) xs \<noteq> []"
  shows "dropWhile (\<lambda>x. x \<noteq> c) xs = c # tl (dropWhile (\<lambda>x. x \<noteq> c) xs)"
proof -
  from hd_dropWhile[OF assms] have "hd (dropWhile (\<lambda>x. x \<noteq> c) xs) = c" by simp
  with assms show ?thesis by (cases "dropWhile (\<lambda>x. x \<noteq> c) xs") simp_all
qed

lemma match_braces_Some_decomp:
  assumes "match_braces s = Some m"
  shows "\<exists>pre mid post. s = pre @ CHR ''{'' # mid @ CHR ''}'' # post
           \<and> CHR ''{'' \<notin> set pre \<and> CHR ''}'' \<notin> set post
           \<and> m = CHR ''{'' # mid @ [CHR ''}'']"
proof -
  let ?P = "\<lambda>c. c \<noteq> CHR ''{''" and ?Q = "\<lambda>c. c \<noteq> CHR ''}''"
  let ?t = "dropWhile ?P s"
  let ?body = "tl ?t"
  let ?d = "dropWhile ?Q (rev ?body)"
  from assms have t: "?t \<noteq> []" and d: "?d \<noteq> []" and m: "m = CHR ''{'' # rev ?d"
    by (auto simp: match_braces_def Let_def split: if_splits)
  have s: "s = takeWhile ?P s @ CHR ''{'' # ?body"
    using dropWhile_neq_Cons[OF t] takeWhile_dropWhile_id[of ?P s] by simp
  have "rev ?body = takeWhile ?Q (rev ?body) @ CHR ''}'' # tl ?d"
    using dropWhile_neq_Cons[OF d] takeWhile_dropWhile_id[of ?Q "rev ?body"] by simp
  then have "rev (rev ?body) = rev (takeWhile ?Q (rev ?body) @ CHR ''}'' # tl ?d)"
    by (rule arg_cong)
  then have body: "?body = rev (tl ?d) @ CHR ''}'' # rev (takeWhile ?Q (rev ?body))"
    by simp
  have md: "rev ?d = rev (tl ?d) @ [CHR ''}'']"
    using dropWhile_neq_Cons[OF d] by (metis rev.simps(2))
  show ?thesis
  proof (intro exI conjI)
    show "s = takeWhile ?P s @ CHR ''{'' # rev (tl ?d) @ CHR ''}'' # rev (takeWhile ?Q (rev ?body))"
      using s body by simp
    show "CHR ''{'' \<notin> set (takeWhile ?P s)" by (rule set_takeWhile_neq)
    show "CHR ''}'' \<notin> set (rev (takeWhile ?Q (rev ?body)))"
      using set_takeWhile_neq[of "CHR ''}''" "rev ?body"] by simp
    show "m = CHR ''{'' # rev (tl ?d) @ [CHR ''}'']" using m md by simp
  qed
qed

lemma match_braces_decomp:
  assumes "CHR ''{'' \<notin> set pre" and "CHR ''}'' \<notin> set post"
  shows "match_braces (pre @ CHR ''{'' # mid @ CHR ''}'' # post) = Some (CHR ''{'' # mid @ [CHR ''}''])"
proof -
  let ?P = "\<lambda>c. c \<noteq> CHR ''{''" and ?Q = "\<lambda>c. c \<noteq> CHR ''}''"
  from assms(1) have t: "dropWhile ?P (pre @ CHR ''{'' # mid @ CHR ''}'' # post)
      = CHR ''{'' # mid @ CHR ''}'' # post"
    by (subst dropWhile_append2) auto
  from assms(2) have "dropWhile ?Q (rev post @ CHR ''}'' # rev mid) = CHR ''}'' # rev mid"
    by (subst dropWhile_append2) auto
  then have "dropWhile ?Q (rev (mid @ CHR ''}'' # post)) = CHR ''}'' # rev mid"
    by simp
  with t show ?thesis by (simp add: match_braces_def)
qed

lemma match_braces_any_pair:
  "match_braces (pre @ CHR ''{'' # mid @ CHR ''}'' # post) \<noteq> None"
proof -
  let ?P = "\<lambda>c. c \<noteq> CHR ''{''" and ?Q = "\<lambda>c. c \<noteq> CHR ''}''"
  let ?s = "pre @ CHR ''{'' # mid @ CHR ''}'' # post"
  have t: "dropWhile ?P ?s \<noteq> [] \<and> CHR ''}'' \<in> set (tl (dropWhile ?P ?s))"
    by (induction pre) auto
  then have "CHR ''}'' \<in> set (rev (tl (dropWhile ?P ?s)))" by simp
  then have "dropWhile ?Q (rev (tl (dropWhile ?P ?s))) \<noteq> []"
    by (simp add: dropWhile_eq_Nil_conv)
  with t show ?thesis by (simp add: match_braces_def Let_def)
qed

text \<open>
  Claim C7 as stated fails: the match is not the first balanced-brace substring. In a reply
  with a valid JSON object and a later closing brace in the prose, the match runs from the
  first opening brace to the last closing brace, so the text handed to the JSON parser is
  not the object.
\<close>

theorem greedy_match_counterexample:
  "match_braces ''Mix: {} (all in {percent})'' = Some ''{} (all in {percent}''
   \<and> first_balanced_spec ''Mix: {} (all in {percent})'' = Some ''{}''"
  by (simp add: match_braces_def)

text \<open>
  Claim C7, amended. The analyzer extracts the text from the first opening brace of the
  reply to the last closing brace after it; there is a match exactly when some opening
  brace is followed by a closing brace. So a reply whose prose has no opening brace before
  and no closing brace after a JSON object has exactly that object extracted and parsed. A
  non-empty reply with no match is rejected with status 500 and the error
  "Invalid analysis format"; one whose match fails to parse is rejected with status 500 and
  the parser's message; otherwise the parsed value is the result.
\<close>

theorem match_braces_first_to_last:
  "(match_braces s = Some m) =
      (\<exists>pre mid post. s = pre @ CHR ''{'' # mid @ CHR ''}'' # post
         \<and> CHR ''{'' \<notin> set pre \<and> CHR ''}'' \<notin> set post \<and> m = CHR ''{'' # mid @ [CHR ''}''])
   \<and> (match_braces s = None) = (\<not> (\<exists>pre mid post. s = pre @ CHR ''{'' # mid @ CHR ''}'' # post))
   \<and> (s \<noteq> [] \<and> match_braces s = None \<longrightarrow>
         extract_result JSON_parse (Some s) = Inl (500, ''Invalid analysis format''))
   \<and> (\<forall>j msg. s \<noteq> [] \<and> match_braces s = Some j \<and> JSON_parse j = Inl msg \<longrightarrow>
         extract_result JSON_parse (Some s) = Inl (500, msg))
   \<and> (\<forall>j v. s \<noteq> [] \<and> match_braces s = Some j \<and> JSON_parse j = Inr v \<longrightarrow>
         extract_result JSON_parse (Some s) = Inr v)"
proof (intro conjI allI impI)
  show "(match_braces s = Some m) =
      (\<exists>pre mid post. s = pre @ CHR ''{'' # mid @ CHR ''}'' # post
         \<and> CHR ''{'' \<notin> set pre \<and> CHR ''}'' \<notin> set post \<and> m = CHR ''{'' # mid @ [CHR ''}''])"
    using match_braces_Some_decomp[of s m] match_braces_decomp by blast
next
  show "(match_braces s = None) = (\<not> (\<exists>pre mid post. s = pre @ CHR ''{'' # mid @ CHR ''}'' # post))"
  proof (cases "match_braces s")
    case None
    have "s \<noteq> pre @ CHR ''{'' # mid @ CHR ''}'' # post" for pre mid post
      using None match_braces_any_pair[of pre mid post] by metis
    with None show ?thesis by blast
  next
    case (Some m)
    from match_braces_Some_decomp[OF Some] Some show ?thesis by auto
  qed
next
  assume "s \<noteq> [] \<and> match_braces s = None"
  then show "extract_result JSON_parse (Some s) = Inl (500, ''Invalid analysis format'')"
    by (simp add: extract_result_def)
next
  fix j msg
  assume "s \<noteq> [] \<and> match_braces s = Some j \<and> JSON_parse j = Inl msg"
  then show "extract_result JSON_parse (Some s) = Inl (500, msg)"
    by (simp add: extract_result_def)
next
  fix j v
  assume "s \<noteq> [] \<and> match_braces s = Some j \<and> JSON_parse j = Inr v"
  then show "extract_result JSON_parse (Some s) = Inr v"
    by (simp add: extract_result_def)
qed

theorem match_braces_first_to_last_witness:
  "match_braces ''Here is the mix: {} Done.'' = Some ''{}''
   \<and> extract_result toy_parse (Some ''Here is the mix: {} Done.'') = Inr ()
   \<and> match_braces ''no object here'' = None
   \<and> extract_result toy_parse (Some ''no object here'') = Inl (500, ''Invalid analysis format'')
   \<and> match_braces ''Mix: {} (all in {percent})'' = Some ''{} (all in {percent}''
   \<and> extract_result toy_parse (Some ''Mix: {} (all in {percent})'')
       = Inl (500, ''Unexpected token'')"
proof -
  have m1: "match_braces ''Here is the mix: {} Done.'' = Some ''{}''"
    and m2: "match_braces ''no object here'' = None"
    and m3: "match_braces ''Mix: {} (all in {percent})'' = Some ''{} (all in {percent}''"
    by (simp_all add: match_braces_def)
  have p1: "toy_parse ''{}'' = Inr ()"
    and p3: "toy_parse ''{} (all in {percent}'' = Inl ''Unexpected token''"
    by (simp_all add: toy_parse_def)
  from match_braces_first_to_last[of "''Here is the mix: {} Done.''" _ toy_parse] m1 p1
  have "extract_result toy_parse (Some ''Here is the mix: {} Done.'') = Inr ()"
    by blast
  moreover
  from match_braces_first_to_last[of "''no object here''" _ toy_parse] m2
  have "extract_result toy_parse (Some ''no object here'') = Inl (500, ''Invalid analysis format'')"
    by blast
  moreover
  from match_braces_first_to_last[of "''Mix: {} (all in {percent})''" _ toy_parse] m3 p3
  have "extract_result toy_parse (Some ''Mix: {} (all in {percent})'')
       = Inl (500, ''Unexpected token'')"
    by blast
  ultimately show ?thesis using m1 m2 m3 by simp
qed

lemma foldl_plus_NaN:
  "acc = NaN \<or> NaN \<in> val ` set ds \<Longrightarrow> foldl (\<lambda>sum d. plus_n sum (val d)) acc ds = NaN"
  by (induction ds arbitrary: acc) auto

lemma divide_n_NaN [simp]: "divide_n x NaN = NaN"
  by (cases x) simp_all

lemma percentages_NaN:
  "percentages ts NaN = \<lparr>night = NaN, morning = NaN, afternoon = NaN, evening = NaN\<rparr>"
  by (simp add: percentages_def)

lemma parse_lines_keep:
  assumes "split_js CHR '','' l = t # v # rest" and "t \<noteq> []" and "v \<noteq> []"
  shows "parse_lines newDate (l # ls)
     = \<lparr>timestamp = newDate t, val = parseFloat v\<rparr> # parse_lines newDate ls"
  using assms by simp

lemma parse_lines_skip:
  assumes "(case split_js CHR '','' l of t # v # rest \<Rightarrow> t = [] \<or> v = [] | _ \<Rightarrow> True)"
  shows "parse_lines newDate (l # ls) = parse_lines newDate ls"
  using assms by (auto split: list.splits)

lemma parseFloat_abc: "parseFloat ''abc'' = NaN"
  by (simp add: parseFloat_def unsigned_literal_def is_space_def is_digit_def)

lemma parseCSV_nan_csv:
  "parseCSV newDate nan_csv = [\<lparr>timestamp = newDate ''2024-01-01T00:00:00'', val = NaN\<rparr>]"
proof -
  have "trim nan_csv = nan_csv"
    by (simp add: trim_def nan_csv_def is_space_def)
  moreover have "split_js (CHR 0x0A) nan_csv = [''timestamp,value'', ''2024-01-01T00:00:00,abc'']"
    by (simp add: nan_csv_def)
  moreover have "split_js CHR '','' ''2024-01-01T00:00:00,abc'' = [''2024-01-01T00:00:00'', ''abc'']"
    by simp
  ultimately show ?thesis by (simp add: parseCSV_def parseFloat_abc)
qed

text \<open>
  Claim C10. The parser keeps every line after the header whose first two comma-separated
  fields are both non-empty, and skips a line only when the first field is empty or the
  second is absent or empty; it never checks that the value is numeric. The value of
  \<^verbatim>\<open>abc\<close> is \<^verbatim>\<open>NaN\<close>, so the row \<^verbatim>\<open>2024-01-01T00:00:00,abc\<close> is parsed into a sample with
  value \<^verbatim>\<open>NaN\<close>, whatever the date constructor returns. Any series with such a sample is
  analyzed without an error, and its total consumption, its peak load and its four bucket
  shares are all \<^verbatim>\<open>NaN\<close>.
\<close>

theorem non_numeric_value_kept:
  "(\<forall>newDate l ls t v rest. split_js CHR '','' l = t # v # rest \<and> t \<noteq> [] \<and> v \<noteq> [] \<longrightarrow>
       parse_lines newDate (l # ls)
         = \<lparr>timestamp = newDate t, val = parseFloat v\<rparr> # parse_lines newDate ls)
   \<and> (\<forall>newDate l ls.
         (case split_js CHR '','' l of t # v # rest \<Rightarrow> t = [] \<or> v = [] | _ \<Rightarrow> True) \<longrightarrow>
         parse_lines newDate (l # ls) = parse_lines newDate ls)
   \<and> parseFloat ''abc'' = NaN
   \<and> (\<forall>newDate. parseCSV newDate nan_csv
         = [\<lparr>timestamp = newDate ''2024-01-01T00:00:00'', val = NaN\<rparr>])
   \<and> (\<forall>data. NaN \<in> val ` set data \<longrightarrow>
         (\<exists>r. analyzeLoadCurve data = Inr r \<and> totalConsumption r = NaN \<and> peakLoad r = NaN
              \<and> timeOfDay r = \<lparr>night = NaN, morning = NaN, afternoon = NaN, evening = NaN\<rparr>))"
proof (intro conjI allI impI)
  fix newDate l ls t v rest
  assume "split_js CHR '','' l = t # v # rest \<and> t \<noteq> [] \<and> v \<noteq> []"
  then show "parse_lines newDate (l # ls)
         = \<lparr>timestamp = newDate t, val = parseFloat v\<rparr> # parse_lines newDate ls"
    by (intro parse_lines_keep[where rest = rest]) simp_all
next
  fix newDate l ls
  assume "case split_js CHR '','' l of t # v # rest \<Rightarrow> t = [] \<or> v = [] | _ \<Rightarrow> True"
  then show "parse_lines newDate (l # ls) = parse_lines newDate ls"
    by (rule parse_lines_skip)
next
  show "parseFloat ''abc'' = NaN" by (rule parseFloat_abc)
next
  fix newDate
  show "parseCSV newDate nan_csv = [\<lparr>timestamp = newDate ''2024-01-01T00:00:00'', val = NaN\<rparr>]"
    by (rule parseCSV_nan_csv)
next
  fix data :: "LoadCurveData list"
  assume nan: "NaN \<in> val ` set data"
  then have ne: "data \<noteq> []" by auto
  from analyzeLoadCurve_nonempty[OF ne] obtain r where run: "analyzeLoadCurve data = Inr r"
    by blast
  note f = analyzeLoadCurve_Inr[OF run]
  from nan have tot: "sum_values data = NaN"
    by (simp add: sum_values_def foldl_plus_NaN)
  from nan have "Math_max (map val data) = NaN"
    by (simp add: Math_max_def foldl_max2_NaN)
  with f(4) have pk: "peakLoad r = NaN" by simp
  from f(5) tot have "timeOfDay r = \<lparr>night = NaN, morning = NaN, afternoon = NaN, evening = NaN\<rparr>"
    by (simp add: percentages_NaN)
  with run f(2) tot pk
  show "\<exists>r. analyzeLoadCurve data = Inr r \<and> totalConsumption r = NaN \<and> peakLoad r = NaN
              \<and> timeOfDay r = \<lparr>night = NaN, morning = NaN, afternoon = NaN, evening = NaN\<rparr>"
    by simp
qed

theorem non_numeric_value_kept_witness:
  "parseCSV utc_date nan_csv
     = [\<lparr>timestamp = \<lparr>getTime = Fin 1704067200000, getHours = Fin 0\<rparr>, val = NaN\<rparr>]
   \<and> analyzeLoadCurve (parseCSV utc_date nan_csv)
       = Inr \<lparr>totalConsumption = NaN, avgDailyConsumption = NaN, peakLoad = NaN,
             timeOfDay = \<lparr>night = NaN, morning = NaN, afternoon = NaN, evening = NaN\<rparr>,
             pattern = ''mixed'', dataPoints = 1\<rparr>"
proof -
  note t = non_numeric_value_kept
  from t have p: "parseCSV utc_date nan_csv
     = [\<lparr>timestamp = utc_date ''2024-01-01T00:00:00'', val = NaN\<rparr>]"
    by blast
  then have p': "parseCSV utc_date nan_csv
     = [\<lparr>timestamp = \<lparr>getTime = Fin 1704067200000, getHours = Fin 0\<rparr>, val = NaN\<rparr>]"
    by (simp add: utc_date_def)
  have "NaN \<in> val ` set (parseCSV utc_date nan_csv)" by (simp add: p')
  with t obtain r where "analyzeLoadCurve (parseCSV utc_date nan_csv) = Inr r"
    "totalConsumption r = NaN" "peakLoad r = NaN"
    by blast
  moreover have "analyzeLoadCurve (parseCSV utc_date nan_csv)
       = Inr \<lparr>totalConsumption = NaN, avgDailyConsumption = NaN, peakLoad = NaN,
             timeOfDay = \<lparr>night = NaN, morning = NaN, afternoon = NaN, evening = NaN\<rparr>,
             pattern = ''mixed'', dataPoints = 1\<rparr>"
    unfolding p' by (simp add: analyzer_defs number_defs)
  ultimately show ?thesis using p' by simp
qed

end
